theory Spec2Isabelle
  imports Main "HOL-Library.Word" "HOL-Library.Monad_Syntax"
begin

unbundle bit_operations_syntax

section \<open>Binlog router, master side (blr\_master.c)\<close>

text \<open>
  A shallow embedding of \<^verbatim>\<open>server/modules/routing/binlog/blr_master.c\<close>.
  Bytes are \<open>8 word\<close>, \<^verbatim>\<open>unsigned int\<close> and \<^verbatim>\<open>uint32_t\<close> are \<open>32 word\<close>. A C pointer
  into a buffer is modelled by the bytes from the pointer to the end of its object; a
  function that would read or write outside the object returns \<open>None\<close>.
\<close>

type_synonym byte = "8 word"
type_synonym bytes = "byte list"

subsection \<open>Packet codec\<close>

text \<open>
  \<^verbatim>\<open>encode_value(data, value, len)\<close>: the loop stores \<^verbatim>\<open>value & 0xff\<close> at \<^verbatim>\<open>*data++\<close>,
  shifts the value right by 8 and takes 8 from \<^verbatim>\<open>len\<close> while \<^verbatim>\<open>len > 0\<close>. The model
  returns the bytes stored at \<^verbatim>\<open>data[0]\<close>, \<^verbatim>\<open>data[1]\<close>, ... in order.
\<close>

function encode_value :: "32 word \<Rightarrow> int \<Rightarrow> bytes" where
  "encode_value v len =
     (if len > 0 then ucast (v AND 0xff) # encode_value (drop_bit 8 v) (len - 8) else [])"
  by pat_completeness auto
termination
  by (relation "measure (\<lambda>(v, len). nat len)") auto

declare encode_value.simps [simp del]

text \<open>
  \<^verbatim>\<open>extract_field(src, bits)\<close>: \<^verbatim>\<open>rval |= (*src++) << shift\<close> while \<^verbatim>\<open>bits > 0\<close>.
  Reading past the end of the object the pointer refers to, and a shift count of 32 or
  more, are undefined in C and give \<open>None\<close>.
\<close>

function extract_loop :: "bytes \<Rightarrow> int \<Rightarrow> 32 word \<Rightarrow> nat \<Rightarrow> 32 word option" where
  "extract_loop src bits rval shift =
     (if bits > 0 then
        (case src of
           [] \<Rightarrow> None
         | b # src' \<Rightarrow>
             if shift \<ge> 32 then None
             else extract_loop src' (bits - 8) (rval OR push_bit shift (ucast b)) (shift + 8))
      else Some rval)"
  by pat_completeness auto
termination
  by (relation "measure (\<lambda>(src, bits, rval, shift). nat bits)") auto

declare extract_loop.simps [simp del]

definition extract_field :: "bytes \<Rightarrow> int \<Rightarrow> 32 word option" where
  "extract_field src bits = extract_loop src bits 0 0"


subsection \<open>Constants and macros of blr.h\<close>

text \<open>
  The header \<^verbatim>\<open>blr.h\<close> is not among the sources. The command bytes, the order of the
  master states and the size of the event histogram are the ones the specification
  lists; the event types and the artificial flag are the values of the MySQL
  replication protocol, which the specification refers to.
\<close>

text \<open>Modelled from the spec: the command bytes of blr.h (COM\_QUERY 0x03,
  COM\_REGISTER\_SLAVE 0x15, COM\_BINLOG\_DUMP 0x12).\<close>

definition COM_QUERY :: byte where "COM_QUERY = 0x03"
definition COM_REGISTER_SLAVE :: byte where "COM_REGISTER_SLAVE = 0x15"
definition COM_BINLOG_DUMP :: byte where "COM_BINLOG_DUMP = 0x12"

text \<open>Modelled from the spec: the event types and the flag bit of blr.h, "as defined
  by MySQL".\<close>

definition ROTATE_EVENT :: byte where "ROTATE_EVENT = 0x04"
definition FORMAT_DESCRIPTION_EVENT :: byte where "FORMAT_DESCRIPTION_EVENT = 0x0f"
definition HEARTBEAT_EVENT :: byte where "HEARTBEAT_EVENT = 0x1b"
definition LOG_EVENT_ARTIFICIAL_F :: "32 word" where "LOG_EVENT_ARTIFICIAL_F = 0x20"

text \<open>Modelled from the spec: the master states of blr.h, numbered in the order the
  specification gives them, after the unconnected state 0.\<close>

definition BLRM_UNCONNECTED :: int where "BLRM_UNCONNECTED = 0"
definition BLRM_AUTHENTICATED :: int where "BLRM_AUTHENTICATED = 1"
definition BLRM_TIMESTAMP :: int where "BLRM_TIMESTAMP = 2"
definition BLRM_SERVERID :: int where "BLRM_SERVERID = 3"
definition BLRM_HBPERIOD :: int where "BLRM_HBPERIOD = 4"
definition BLRM_CHKSUM1 :: int where "BLRM_CHKSUM1 = 5"
definition BLRM_CHKSUM2 :: int where "BLRM_CHKSUM2 = 6"
definition BLRM_GTIDMODE :: int where "BLRM_GTIDMODE = 7"
definition BLRM_MUUID :: int where "BLRM_MUUID = 8"
definition BLRM_SUUID :: int where "BLRM_SUUID = 9"
definition BLRM_LATIN1 :: int where "BLRM_LATIN1 = 10"
definition BLRM_REGISTER :: int where "BLRM_REGISTER = 11"
definition BLRM_BINLOGDUMP :: int where "BLRM_BINLOGDUMP = 12"
definition BLRM_MAXSTATE :: int where "BLRM_MAXSTATE = 12"

lemmas BLRM_defs =
  BLRM_UNCONNECTED_def BLRM_AUTHENTICATED_def BLRM_TIMESTAMP_def BLRM_SERVERID_def
  BLRM_HBPERIOD_def BLRM_CHKSUM1_def BLRM_CHKSUM2_def BLRM_GTIDMODE_def BLRM_MUUID_def
  BLRM_SUUID_def BLRM_LATIN1_def BLRM_REGISTER_def BLRM_BINLOGDUMP_def BLRM_MAXSTATE_def

text \<open>
  What the sources leave to the platform and to files that are not among them:
  \<^item> \<open>BINLOG_FNAMELEN\<close>, the constant of blr.h;
  \<^item> \<open>shl_32\<close>, the value the compiled code gives \<^verbatim>\<open>x << 32\<close> for a 32-bit \<^verbatim>\<open>x\<close>
    (the shift count equals the width of the operand, which C leaves undefined);
  \<^item> \<open>slave_rotate_hook\<close>, what \<^verbatim>\<open>blr_slave_rotate\<close> (blr\_slave.c) does to the file
    tracking of a slave.
\<close>

record 'f blr_env =
  BINLOG_FNAMELEN :: nat
  shl_32 :: "32 word \<Rightarrow> 32 word"
  slave_rotate_hook :: "'f \<Rightarrow> bytes \<Rightarrow> 'f"

subsection \<open>Buffers\<close>

text \<open>
  A \<^verbatim>\<open>GWBUF\<close> chain received from the network is the list of its segments, each the
  bytes between \<^verbatim>\<open>start\<close> and \<^verbatim>\<open>end\<close>; \<^verbatim>\<open>NULL\<close> is the empty chain. buffer.c and buffer.h
  are not among the sources.
\<close>

type_synonym gwbuf = "bytes list"

text \<open>Modelled from the spec: \<^verbatim>\<open>gwbuf_append\<close>, \<^verbatim>\<open>gwbuf_length\<close> and \<^verbatim>\<open>GWBUF_LENGTH\<close> of
  buffer.c and buffer.h: a chained buffer sequence, the number of bytes of the whole
  chain, and the number of bytes of its head segment.\<close>

definition gwbuf_append :: "gwbuf \<Rightarrow> gwbuf \<Rightarrow> gwbuf" where
  "gwbuf_append head tail = head @ tail"

definition gwbuf_length :: "gwbuf \<Rightarrow> nat" where
  "gwbuf_length head = sum_list (map length head)"

definition GWBUF_LENGTH :: "gwbuf \<Rightarrow> nat" where
  "GWBUF_LENGTH b = (case b of [] \<Rightarrow> 0 | seg # _ \<Rightarrow> length seg)"

text \<open>Modelled from the spec: \<^verbatim>\<open>gwbuf_consume\<close> of buffer.c advances the head segment by
  \<open>n\<close> bytes and unlinks it once it is empty. A null chain, or more bytes than the head
  segment holds, gives \<open>None\<close>.\<close>

definition gwbuf_consume :: "gwbuf \<Rightarrow> nat \<Rightarrow> gwbuf option" where
  "gwbuf_consume head n =
     (case head of
        [] \<Rightarrow> None
      | seg # rest \<Rightarrow>
          if n < length seg then Some (drop n seg # rest)
          else if n = length seg then Some rest
          else None)"

text \<open>
  A buffer the router allocates with \<^verbatim>\<open>gwbuf_alloc\<close> and fills is a list of cells, \<open>None\<close>
  for a byte that was never stored. Allocation is taken to succeed. \<open>store\<close> writes bytes
  at an offset and is \<open>None\<close> when a byte would fall outside the buffer; \<open>memcpy_src\<close>
  reads \<open>n\<close> bytes from a pointer and is \<open>None\<close> when the object is shorter.
\<close>

type_synonym obuf = "byte option list"

definition gwbuf_alloc :: "nat \<Rightarrow> obuf" where
  "gwbuf_alloc n = replicate n None"

definition store :: "obuf \<Rightarrow> nat \<Rightarrow> bytes \<Rightarrow> obuf option" where
  "store buf off bs =
     (if off + length bs \<le> length buf
      then Some (take off buf @ map Some bs @ drop (off + length bs) buf)
      else None)"

definition memcpy_src :: "bytes \<Rightarrow> nat \<Rightarrow> bytes option" where
  "memcpy_src src n = (if n \<le> length src then Some (take n src) else None)"

definition nth_opt :: "bytes \<Rightarrow> nat \<Rightarrow> byte option" where
  "nth_opt p i = (if i < length p then Some (p ! i) else None)"

text \<open>C strings: the bytes before the first NUL; \<^verbatim>\<open>strncpy\<close> stores exactly \<open>n\<close> bytes,
  padding with NUL; \<^verbatim>\<open>strncmp\<close> compares at most \<open>n\<close> bytes and stops at a NUL.\<close>

definition cstr :: "bytes \<Rightarrow> bytes" where
  "cstr s = takeWhile (\<lambda>b. b \<noteq> 0) s"

definition strncpy_bytes :: "bytes \<Rightarrow> nat \<Rightarrow> bytes" where
  "strncpy_bytes src n = take n (cstr src @ replicate n 0)"

definition strncmp_eq :: "bytes \<Rightarrow> bytes \<Rightarrow> nat \<Rightarrow> bool" where
  "strncmp_eq a b n = (take n (cstr a) = take n (cstr b))"

definition byte_of_char :: "char \<Rightarrow> byte" where
  "byte_of_char c = of_char c"

subsection \<open>Data model\<close>

record rep_header =
  payload_len :: "32 word"
  hdr_seqno :: byte
  ok :: byte
  timestamp :: "32 word"
  event_type :: byte
  hdr_serverid :: "32 word"
  event_size :: "32 word"
  next_pos :: "32 word"
  flags :: "32 word"

text \<open>A slave: \<open>dcb\<close> is the list of packets written to its connection, oldest first;
  \<open>file_tracking\<close> is the part of the slave that \<^verbatim>\<open>blr_slave_rotate\<close> maintains.\<close>

record 'f router_slave =
  dcb :: "obuf list"
  binlog_pos :: "32 word"
  seqno :: byte
  file_tracking :: 'f

record saved_master =
  server_id :: gwbuf
  heartbeat :: gwbuf
  chksum1 :: gwbuf
  chksum2 :: gwbuf
  gtid_mode :: gwbuf
  uuid :: gwbuf
  setslaveuuid :: gwbuf
  setnames :: gwbuf
  fde_event :: "bytes option"
  fde_len :: "32 word"

record router_stats =
  n_binlogs :: nat
  n_binlog_errors :: nat
  n_fakeevents :: nat
  n_rotates :: nat
  events :: "byte \<Rightarrow> nat"

text \<open>The calls made to the file component (blr\_file.c, not among the sources).\<close>

datatype file_call =
  FileWrite rep_header bytes
| FileRotate bytes "64 word"
| FileFlush

text \<open>The router instance: \<open>master\<close> is the list of packets written to the master
  connection, oldest first; \<open>port\<close> is \<^verbatim>\<open>router->service->ports->port\<close>.\<close>

record 'f router_instance =
  master_state :: int
  active_logs :: int
  queue :: gwbuf
  residual :: gwbuf
  saved_master :: saved_master
  master :: "obuf list"
  router_uuid :: string
  serverid :: "32 word"
  masterid :: "32 word"
  port :: "32 word"
  binlog_name :: bytes
  binlog_position :: "64 word"
  slaves :: "'f router_slave list"
  stats :: router_stats
  file_calls :: "file_call list"


subsection \<open>Packet builders\<close>

text \<open>
  \<^verbatim>\<open>blr_make_query\<close>: a buffer of \<^verbatim>\<open>strlen(query) + 5\<close> bytes; the 24-bit payload length
  \<^verbatim>\<open>strlen(query) + 1\<close>, sequence id 0, the command byte and the text of the query. The
  string is its characters up to the terminating NUL.
\<close>

definition blr_make_query :: "string \<Rightarrow> obuf option" where
  "blr_make_query query = do {
     let buf = gwbuf_alloc (length query + 5);
     let len = length query + 1;
     buf \<leftarrow> store buf 0 (encode_value (of_nat len) 24);
     buf \<leftarrow> store buf 3 [0];
     buf \<leftarrow> store buf 4 [COM_QUERY];
     store buf 5 (map byte_of_char query)
   }"

definition blr_make_registration :: "('f, 'r) router_instance_scheme \<Rightarrow> obuf option" where
  "blr_make_registration router = do {
     let len = 18;
     let buf = gwbuf_alloc (len + 4);
     buf \<leftarrow> store buf 0 (encode_value (of_nat len) 24);
     buf \<leftarrow> store buf 3 [0];
     buf \<leftarrow> store buf 4 [COM_REGISTER_SLAVE];
     buf \<leftarrow> store buf 5 (encode_value (serverid router) 32);
     buf \<leftarrow> store buf 9 [0];
     buf \<leftarrow> store buf 10 [0];
     buf \<leftarrow> store buf 11 [0];
     buf \<leftarrow> store buf 12 (encode_value (port router) 16);
     buf \<leftarrow> store buf 14 (encode_value 0 32);
     store buf 18 (encode_value (masterid router) 32)
   }"

text \<open>
  \<^verbatim>\<open>blr_make_binlog_dump\<close>: the buffer has \<^verbatim>\<open>0x1b + 4\<close> bytes whatever \<open>BINLOG_FNAMELEN\<close>
  is; \<^verbatim>\<open>binlog_position\<close> is passed as an \<^verbatim>\<open>unsigned int\<close>; \<^verbatim>\<open>strncpy\<close> stores
  \<open>BINLOG_FNAMELEN\<close> bytes at offset 15.
\<close>

definition blr_make_binlog_dump ::
  "('f, 'e) blr_env_scheme \<Rightarrow> ('f, 'r) router_instance_scheme \<Rightarrow> obuf option" where
  "blr_make_binlog_dump E router = do {
     let len = 0x1b;
     let buf = gwbuf_alloc (len + 4);
     buf \<leftarrow> store buf 0 (encode_value (of_nat len) 24);
     buf \<leftarrow> store buf 3 [0];
     buf \<leftarrow> store buf 4 [COM_BINLOG_DUMP];
     buf \<leftarrow> store buf 5 (encode_value (ucast (binlog_position router)) 32);
     buf \<leftarrow> store buf 9 (encode_value 0 16);
     buf \<leftarrow> store buf 11 (encode_value (serverid router) 32);
     store buf 15 (strncpy_bytes (binlog_name router) (BINLOG_FNAMELEN E))
   }"

subsection \<open>Event header\<close>

definition blr_extract_header :: "bytes \<Rightarrow> rep_header option" where
  "blr_extract_header ptr = do {
     pl \<leftarrow> extract_field ptr 24;
     sq \<leftarrow> nth_opt ptr 3;
     okb \<leftarrow> nth_opt ptr 4;
     ts \<leftarrow> extract_field (drop 5 ptr) 32;
     et \<leftarrow> nth_opt ptr 9;
     sid \<leftarrow> extract_field (drop 10 ptr) 32;
     es \<leftarrow> extract_field (drop 14 ptr) 32;
     np \<leftarrow> extract_field (drop 18 ptr) 32;
     fl \<leftarrow> extract_field (drop 22 ptr) 16;
     Some \<lparr> payload_len = pl, hdr_seqno = sq, ok = okb, timestamp = ts, event_type = et,
            hdr_serverid = sid, event_size = es, next_pos = np, flags = fl \<rparr>
   }"

subsection \<open>File component and rotate\<close>

text \<open>Modelled from the spec: \<^verbatim>\<open>blr_write_binlog_record\<close>, \<^verbatim>\<open>blr_file_rotate\<close> and
  \<^verbatim>\<open>blr_file_flush\<close> of blr\_file.c, the file component: append, rotate (switch the
  active file, starting at the position; afterwards \<open>binlog_name\<close> and
  \<open>binlog_position\<close> are the new name and position) and flush. Each call is recorded
  with its arguments.\<close>

definition blr_write_binlog_record ::
  "('f, 'r) router_instance_scheme \<Rightarrow> rep_header \<Rightarrow> bytes \<Rightarrow> ('f, 'r) router_instance_scheme" where
  "blr_write_binlog_record router hdr ptr =
     router\<lparr>file_calls := file_calls router @ [FileWrite hdr ptr]\<rparr>"

definition blr_file_rotate ::
  "('f, 'r) router_instance_scheme \<Rightarrow> bytes \<Rightarrow> 64 word \<Rightarrow> ('f, 'r) router_instance_scheme" where
  "blr_file_rotate router file pos =
     router\<lparr>binlog_name := cstr file, binlog_position := pos,
            file_calls := file_calls router @ [FileRotate (cstr file) pos]\<rparr>"

definition blr_file_flush ::
  "('f, 'r) router_instance_scheme \<Rightarrow> ('f, 'r) router_instance_scheme" where
  "blr_file_flush router = router\<lparr>file_calls := file_calls router @ [FileFlush]\<rparr>"

text \<open>
  \<^verbatim>\<open>blr_rotate_event\<close>: \<^verbatim>\<open>pos = extract_field(ptr, 32) + (extract_field(ptr+4, 32) << 32)\<close>
  after \<^verbatim>\<open>ptr += 19\<close>. Both operands are \<^verbatim>\<open>uint32_t\<close>, so the shift and the sum are
  32-bit operations and only their result is widened to the 64-bit \<^verbatim>\<open>pos\<close>.
\<close>

definition rotate_pos :: "('f, 'e) blr_env_scheme \<Rightarrow> bytes \<Rightarrow> 64 word option" where
  "rotate_pos E ptr = do {
     lo \<leftarrow> extract_field (drop 19 ptr) 32;
     hi \<leftarrow> extract_field (drop (19 + 4) ptr) 32;
     Some (ucast (lo + shl_32 E hi))
   }"

definition blr_rotate_event ::
  "('f, 'e) blr_env_scheme \<Rightarrow> ('f, 'r) router_instance_scheme \<Rightarrow> bytes \<Rightarrow> rep_header
     \<Rightarrow> ('f, 'r) router_instance_scheme option" where
  "blr_rotate_event E router ptr hdr = do {
     pos \<leftarrow> rotate_pos E ptr;
     name \<leftarrow> memcpy_src (drop (19 + 8) ptr) (BINLOG_FNAMELEN E);
     let file = name @ [0];
     if \<not> strncmp_eq (binlog_name router) file (BINLOG_FNAMELEN E)
     then Some (blr_file_rotate
                  (router\<lparr>stats := (stats router)\<lparr>n_rotates := n_rotates (stats router) + 1\<rparr>\<rparr>)
                  file pos)
     else Some router
   }"

subsection \<open>Distribution to the slaves\<close>

text \<open>Modelled from the spec: \<^verbatim>\<open>blr_slave_rotate\<close> of blr\_slave.c, the slave-side rotate
  hook: it moves the file tracking of the slave.\<close>

definition blr_slave_rotate ::
  "('f, 'e) blr_env_scheme \<Rightarrow> 'f router_slave \<Rightarrow> bytes \<Rightarrow> 'f router_slave" where
  "blr_slave_rotate E slave ptr =
     slave\<lparr>file_tracking := slave_rotate_hook E (file_tracking slave) ptr\<rparr>"

text \<open>The body of the loop over the slaves, for one slave.\<close>

definition distribute_slave ::
  "('f, 'e) blr_env_scheme \<Rightarrow> rep_header \<Rightarrow> bytes \<Rightarrow> 'f router_slave \<Rightarrow> 'f router_slave option" where
  "distribute_slave E hdr ptr slave =
     (if binlog_pos slave = next_pos hdr - event_size hdr then do {
        let pkt = gwbuf_alloc (unat (event_size hdr + 5));
        pkt \<leftarrow> store pkt 0 (encode_value (event_size hdr + 1) 24);
        pkt \<leftarrow> store pkt 3 [seqno slave];
        let slave = slave\<lparr>seqno := seqno slave + 1\<rparr>;
        pkt \<leftarrow> store pkt 4 [0];
        ev \<leftarrow> memcpy_src ptr (unat (event_size hdr));
        pkt \<leftarrow> store pkt 5 ev;
        let slave = slave\<lparr>dcb := dcb slave @ [pkt]\<rparr>;
        let slave = slave\<lparr>binlog_pos := next_pos hdr\<rparr>;
        Some (if event_type hdr = ROTATE_EVENT then blr_slave_rotate E slave ptr else slave)
      }
      else Some slave)"

fun distribute_slaves ::
  "('f, 'e) blr_env_scheme \<Rightarrow> rep_header \<Rightarrow> bytes \<Rightarrow> 'f router_slave list
     \<Rightarrow> 'f router_slave list option" where
  "distribute_slaves E hdr ptr [] = Some []"
| "distribute_slaves E hdr ptr (slave # rest) =
     (case distribute_slave E hdr ptr slave of
        None \<Rightarrow> None
      | Some slave' \<Rightarrow>
          (case distribute_slaves E hdr ptr rest of
             None \<Rightarrow> None
           | Some rest' \<Rightarrow> Some (slave' # rest')))"

definition blr_distribute_binlog_record ::
  "('f, 'e) blr_env_scheme \<Rightarrow> ('f, 'r) router_instance_scheme \<Rightarrow> rep_header \<Rightarrow> bytes
     \<Rightarrow> ('f, 'r) router_instance_scheme option" where
  "blr_distribute_binlog_record E router hdr ptr =
     (case distribute_slaves E hdr ptr (slaves router) of
        None \<Rightarrow> None
      | Some ss \<Rightarrow> Some (router\<lparr>slaves := ss\<rparr>))"


subsection \<open>Binlog ingest\<close>

text \<open>
  The part of the loop of \<^verbatim>\<open>blr_handle_binlog_record\<close> between \<^verbatim>\<open>blr_extract_header\<close> and
  the release of the message, for one reassembled message at \<open>ptr\<close>. The allocation of
  the saved format description event is taken to succeed; \<^verbatim>\<open>printf\<close> is left out.
\<close>

definition handle_message ::
  "('f, 'e) blr_env_scheme \<Rightarrow> ('f, 'r) router_instance_scheme \<Rightarrow> bytes
     \<Rightarrow> ('f, 'r) router_instance_scheme option" where
  "handle_message E router ptr = do {
     hdr \<leftarrow> blr_extract_header ptr;
     if ok hdr = 0 then do {
       let router = router\<lparr>stats := (stats router)\<lparr>n_binlogs := n_binlogs (stats router) + 1\<rparr>\<rparr>;
       let router =
         (if event_type hdr < 0x24
          then router\<lparr>stats := (stats router)\<lparr>events := (events (stats router))
                   (event_type hdr := events (stats router) (event_type hdr) + 1)\<rparr>\<rparr>
          else router);
       if event_type hdr = FORMAT_DESCRIPTION_EVENT \<and> next_pos hdr = 0 then do {
         let router = router\<lparr>stats := (stats router)\<lparr>n_fakeevents := n_fakeevents (stats router) + 1\<rparr>\<rparr>;
         ev \<leftarrow> memcpy_src (drop 5 ptr) (unat (event_size hdr));
         Some (router\<lparr>saved_master := (saved_master router)
                 \<lparr>fde_len := event_size hdr, fde_event := Some ev\<rparr>\<rparr>)
       }
       else if event_type hdr = HEARTBEAT_EVENT then Some router
       else if flags hdr \<noteq> LOG_EVENT_ARTIFICIAL_F then do {
         let ptr = drop 5 ptr;
         let router = blr_write_binlog_record router hdr ptr;
         router \<leftarrow> (if event_type hdr = ROTATE_EVENT
                    then blr_rotate_event E router ptr hdr else Some router);
         blr_distribute_binlog_record E router hdr ptr
       }
       else do {
         let ptr = drop 5 ptr;
         if event_type hdr = ROTATE_EVENT then blr_rotate_event E router ptr hdr
         else Some router
       }
     }
     else Some (router\<lparr>stats := (stats router)
                  \<lparr>n_binlog_errors := n_binlog_errors (stats router) + 1\<rparr>\<rparr>)
   }"

text \<open>
  The length of the next message, header included: from the first three bytes of the
  head segment, or, when the head segment holds fewer than three bytes, from it and the
  start of the next segment. With an empty head segment \<^verbatim>\<open>len\<close> is never assigned.
\<close>

definition message_len :: "gwbuf \<Rightarrow> nat option" where
  "message_len pkt =
     (case pkt of
        [] \<Rightarrow> None
      | pdata # rest \<Rightarrow>
          let reslen = length pdata in
          if reslen < 3 then
            (if reslen = 2 then
               (case rest of
                  [] \<Rightarrow> None
                | nxt # _ \<Rightarrow> do {
                    a \<leftarrow> extract_field pdata 16;
                    b \<leftarrow> extract_field nxt 8;
                    Some (unat (a OR push_bit 16 b) + 4) })
             else if reslen = 1 then
               (case rest of
                  [] \<Rightarrow> None
                | nxt # _ \<Rightarrow> do {
                    a \<leftarrow> extract_field pdata 8;
                    b \<leftarrow> extract_field nxt 16;
                    Some (unat (a OR push_bit 8 b) + 4) })
             else None)
          else do { a \<leftarrow> extract_field pdata 24; Some (unat a + 4) })"

text \<open>
  The loop of \<^verbatim>\<open>blr_handle_binlog_record\<close>. The result is the router, the chain that is
  left, and the messages handed to \<^verbatim>\<open>blr_extract_header\<close> (\<open>len\<close> bytes each), in order.
  A message that needs more bytes than the next segment holds makes \<^verbatim>\<open>memcpy\<close> read
  past that segment: \<open>None\<close>.
\<close>

declare Option.bind_cong [fundef_cong]

function handle_loop ::
  "('f, 'e) blr_env_scheme \<Rightarrow> ('f, 'r) router_instance_scheme \<Rightarrow> gwbuf
     \<Rightarrow> (('f, 'r) router_instance_scheme \<times> gwbuf \<times> bytes list) option" where
  "handle_loop E router pkt =
     (if pkt \<noteq> [] \<and> gwbuf_length pkt > 24 then
        (case message_len pkt of
           None \<Rightarrow> None
         | Some len \<Rightarrow>
             let reslen = GWBUF_LENGTH pkt; pdata = hd pkt in
             if reslen < len \<and> gwbuf_length pkt \<ge> len then
               (case tl pkt of
                  [] \<Rightarrow> None
                | nxt # _ \<Rightarrow>
                    (case memcpy_src nxt (len - reslen) of
                       None \<Rightarrow> None
                     | Some tail_bytes \<Rightarrow>
                         let msg = pdata @ tail_bytes in
                         (case handle_message E router msg of
                            None \<Rightarrow> None
                          | Some router' \<Rightarrow>
                              (case gwbuf_consume pkt reslen of
                                 None \<Rightarrow> None
                               | Some pkt1 \<Rightarrow>
                                   (case gwbuf_consume pkt1 (len - reslen) of
                                      None \<Rightarrow> None
                                    | Some pkt2 \<Rightarrow>
                                        (case handle_loop E router' pkt2 of
                                           None \<Rightarrow> None
                                         | Some (r, res, tr) \<Rightarrow> Some (r, res, msg # tr)))))))
             else if reslen < len then Some (router, pkt, [])
             else
               (case handle_message E router pdata of
                  None \<Rightarrow> None
                | Some router' \<Rightarrow>
                    (case gwbuf_consume pkt len of
                       None \<Rightarrow> None
                     | Some pkt' \<Rightarrow>
                         (case handle_loop E router' pkt' of
                            None \<Rightarrow> None
                          | Some (r, res, tr) \<Rightarrow> Some (r, res, take len pdata # tr)))))
      else Some (router, pkt, []))"
  by pat_completeness auto


lemma gwbuf_consume_length:
  "gwbuf_consume pkt n = Some pkt' \<Longrightarrow> gwbuf_length pkt' + n = gwbuf_length pkt"
  by (auto simp: gwbuf_consume_def gwbuf_length_def split: list.splits if_splits)

lemma message_len_pos: "message_len pkt = Some len \<Longrightarrow> 4 \<le> len"
  by (auto simp: message_len_def Let_def split: list.splits if_splits Option.bind_splits)

termination handle_loop
proof (relation "measure (\<lambda>(E, router, pkt). gwbuf_length pkt)", goal_cases)
  case 1
  show ?case by simp
next
  case (2 E router pkt len reslen pdata nxt rest tail_bytes router' pkt1 pkt2)
  then show ?case
    by (auto dest!: gwbuf_consume_length)
next
  case (3 E router pkt len reslen pdata router' pkt')
  then show ?case
    by (auto dest!: gwbuf_consume_length message_len_pos)
qed

declare handle_loop.simps [simp del]

text \<open>
  \<^verbatim>\<open>blr_handle_binlog_record\<close>: the residual is put in front of the chain, the loop runs,
  what is left becomes the residual, and the file is flushed. The second component is
  the list of messages the loop handled.
\<close>

definition blr_handle_binlog_record_trace ::
  "('f, 'e) blr_env_scheme \<Rightarrow> ('f, 'r) router_instance_scheme \<Rightarrow> gwbuf
     \<Rightarrow> (('f, 'r) router_instance_scheme \<times> bytes list) option" where
  "blr_handle_binlog_record_trace E router pkt =
     (let pkt0 = (if residual router \<noteq> [] then gwbuf_append (residual router) pkt else pkt);
          router0 = (if residual router \<noteq> [] then router\<lparr>residual := []\<rparr> else router)
      in case handle_loop E router0 pkt0 of
           None \<Rightarrow> None
         | Some (router1, pkt1, tr) \<Rightarrow>
             Some (blr_file_flush (if pkt1 \<noteq> [] then router1\<lparr>residual := pkt1\<rparr> else router1), tr))"

definition blr_handle_binlog_record ::
  "('f, 'e) blr_env_scheme \<Rightarrow> ('f, 'r) router_instance_scheme \<Rightarrow> gwbuf
     \<Rightarrow> ('f, 'r) router_instance_scheme option" where
  "blr_handle_binlog_record E router pkt =
     map_option fst (blr_handle_binlog_record_trace E router pkt)"

subsection \<open>Master state machine\<close>

text \<open>Modelled from the spec: \<^verbatim>\<open>MYSQL_RESPONSE_ERR\<close> of blr.h, the MySQL error-packet
  marker: the first payload byte of the response, after the 4-byte packet header, is
  0xff. The byte is read at offset 4 of the head segment of the buffer: \<open>None\<close> when
  there is no buffer or its head segment holds fewer than five bytes.\<close>

definition MYSQL_RESPONSE_ERR :: "gwbuf \<Rightarrow> bool option" where
  "MYSQL_RESPONSE_ERR buf =
     (case buf of
        [] \<Rightarrow> None
      | seg # _ \<Rightarrow> if 4 < length seg then Some (seg ! 4 = 0xff) else None)"

text \<open>
  The \<^verbatim>\<open>switch\<close> of \<^verbatim>\<open>blr_master_response\<close>, for one buffer. A consumed buffer is stored
  nowhere; the freeing of memory is not part of the model. In state MUUID the query is
  formatted into \<^verbatim>\<open>char query[128]\<close>.
\<close>

definition master_step ::
  "('f, 'e) blr_env_scheme \<Rightarrow> ('f, 'r) router_instance_scheme \<Rightarrow> gwbuf
     \<Rightarrow> ('f, 'r) router_instance_scheme option" where
  "master_step E router buf =
     (if master_state router = BLRM_TIMESTAMP then do {
        q \<leftarrow> blr_make_query (''SHOW VARIABLES LIKE '' @ [CHR 0x27] @ ''SERVER_ID'' @ [CHR 0x27]);
        Some (router\<lparr>master_state := BLRM_SERVERID, master := master router @ [q]\<rparr>)
      }
      else if master_state router = BLRM_SERVERID then do {
        let router = router\<lparr>saved_master := (saved_master router)\<lparr>server_id := buf\<rparr>\<rparr>;
        q \<leftarrow> blr_make_query ''SET @master_heartbeat_period = 1799999979520'';
        Some (router\<lparr>master_state := BLRM_HBPERIOD, master := master router @ [q]\<rparr>)
      }
      else if master_state router = BLRM_HBPERIOD then do {
        let router = router\<lparr>saved_master := (saved_master router)\<lparr>heartbeat := buf\<rparr>\<rparr>;
        q \<leftarrow> blr_make_query ''SET @master_binlog_checksum = @@global.binlog_checksum'';
        Some (router\<lparr>master_state := BLRM_CHKSUM1, master := master router @ [q]\<rparr>)
      }
      else if master_state router = BLRM_CHKSUM1 then do {
        let router = router\<lparr>saved_master := (saved_master router)\<lparr>chksum1 := buf\<rparr>\<rparr>;
        q \<leftarrow> blr_make_query ''SELECT @master_binlog_checksum'';
        Some (router\<lparr>master_state := BLRM_CHKSUM2, master := master router @ [q]\<rparr>)
      }
      else if master_state router = BLRM_CHKSUM2 then do {
        let router = router\<lparr>saved_master := (saved_master router)\<lparr>chksum2 := buf\<rparr>\<rparr>;
        q \<leftarrow> blr_make_query ''SELECT @@GLOBAL.GTID_MODE'';
        Some (router\<lparr>master_state := BLRM_GTIDMODE, master := master router @ [q]\<rparr>)
      }
      else if master_state router = BLRM_GTIDMODE then do {
        let router = router\<lparr>saved_master := (saved_master router)\<lparr>gtid_mode := buf\<rparr>\<rparr>;
        q \<leftarrow> blr_make_query (''SHOW VARIABLES LIKE '' @ [CHR 0x27] @ ''SERVER_UUID'' @ [CHR 0x27]);
        Some (router\<lparr>master_state := BLRM_MUUID, master := master router @ [q]\<rparr>)
      }
      else if master_state router = BLRM_MUUID then do {
        let router = router\<lparr>saved_master := (saved_master router)\<lparr>uuid := buf\<rparr>\<rparr>;
        let query = ''SET @slave_uuid='' @ [CHR 0x27] @ router_uuid router @ [CHR 0x27];
        if length query + 1 > 128 then None
        else do {
          q \<leftarrow> blr_make_query query;
          Some (router\<lparr>master_state := BLRM_SUUID, master := master router @ [q]\<rparr>)
        }
      }
      else if master_state router = BLRM_SUUID then do {
        let router = router\<lparr>saved_master := (saved_master router)\<lparr>setslaveuuid := buf\<rparr>\<rparr>;
        q \<leftarrow> blr_make_query ''SET NAMES latin1'';
        Some (router\<lparr>master_state := BLRM_LATIN1, master := master router @ [q]\<rparr>)
      }
      else if master_state router = BLRM_LATIN1 then do {
        let router = router\<lparr>saved_master := (saved_master router)\<lparr>setnames := buf\<rparr>\<rparr>;
        q \<leftarrow> blr_make_registration router;
        Some (router\<lparr>master_state := BLRM_REGISTER, master := master router @ [q]\<rparr>)
      }
      else if master_state router = BLRM_REGISTER then do {
        q \<leftarrow> blr_make_binlog_dump E router;
        Some (router\<lparr>master_state := BLRM_BINLOGDUMP, master := master router @ [q]\<rparr>)
      }
      else if master_state router = BLRM_BINLOGDUMP then blr_handle_binlog_record E router buf
      else Some router)"


text \<open>Induction over the runs of the loop that return, and what every step of the
  ingest leaves alone. No step touches the queue of the gate, so the loop of
  \<^verbatim>\<open>blr_master_response\<close> below ends.\<close>

lemma handle_loop_induct_Some [consumes 1, case_names stop wait copy inplace]:
  assumes run: "handle_loop E router pkt = Some (router', res, tr)"
    and stop: "\<And>r p. p = [] \<or> gwbuf_length p \<le> 24 \<Longrightarrow> P r p r p []"
    and wait: "\<And>r p len. \<lbrakk>p \<noteq> []; 24 < gwbuf_length p; message_len p = Some len;
                 GWBUF_LENGTH p < len; gwbuf_length p < len\<rbrakk> \<Longrightarrow> P r p r p []"
    and copy: "\<And>r p len nxt rest tb r1 p1 p2 r' res tr.
                 \<lbrakk>p \<noteq> []; 24 < gwbuf_length p; message_len p = Some len;
                  GWBUF_LENGTH p < len; len \<le> gwbuf_length p; tl p = nxt # rest;
                  memcpy_src nxt (len - GWBUF_LENGTH p) = Some tb;
                  handle_message E r (hd p @ tb) = Some r1;
                  gwbuf_consume p (GWBUF_LENGTH p) = Some p1;
                  gwbuf_consume p1 (len - GWBUF_LENGTH p) = Some p2;
                  handle_loop E r1 p2 = Some (r', res, tr);
                  P r1 p2 r' res tr\<rbrakk> \<Longrightarrow> P r p r' res ((hd p @ tb) # tr)"
    and inplace: "\<And>r p len r1 p1 r' res tr.
                 \<lbrakk>p \<noteq> []; 24 < gwbuf_length p; message_len p = Some len;
                  len \<le> GWBUF_LENGTH p;
                  handle_message E r (hd p) = Some r1;
                  gwbuf_consume p len = Some p1;
                  handle_loop E r1 p1 = Some (r', res, tr);
                  P r1 p1 r' res tr\<rbrakk> \<Longrightarrow> P r p r' res (take len (hd p) # tr)"
  shows "P router pkt router' res tr"
  using run
proof (induction "gwbuf_length pkt" arbitrary: router pkt router' res tr rule: less_induct)
  case less
  note run = less.prems
  show ?case
  proof (cases "pkt \<noteq> [] \<and> 24 < gwbuf_length pkt")
    case False
    then have "handle_loop E router pkt = Some (router, pkt, [])"
      by (subst handle_loop.simps) auto
    with run have "router' = router" "res = pkt" "tr = []" by simp_all
    with False show ?thesis using stop by auto
  next
    case True
    then obtain len where len: "message_len pkt = Some len"
      using run by (subst (asm) handle_loop.simps) (auto split: option.splits)
    show ?thesis
    proof (cases "GWBUF_LENGTH pkt < len \<and> len \<le> gwbuf_length pkt")
      case c: True
      from run True len c obtain nxt rest tb r1 p1 p2 tr'
        where f: "tl pkt = nxt # rest" "memcpy_src nxt (len - GWBUF_LENGTH pkt) = Some tb"
          "handle_message E router (hd pkt @ tb) = Some r1"
          "gwbuf_consume pkt (GWBUF_LENGTH pkt) = Some p1"
          "gwbuf_consume p1 (len - GWBUF_LENGTH pkt) = Some p2"
          "handle_loop E r1 p2 = Some (router', res, tr')" "tr = (hd pkt @ tb) # tr'"
        by (subst (asm) handle_loop.simps)
           (auto simp: Let_def split: option.splits list.splits prod.splits)
      have "gwbuf_length p2 < gwbuf_length pkt"
        using gwbuf_consume_length [OF f(4)] gwbuf_consume_length [OF f(5)] c by linarith
      then have "P r1 p2 router' res tr'"
        using f(6) by (rule less.hyps)
      with True len c f show ?thesis
        using copy by auto
    next
      case c: False
      show ?thesis
      proof (cases "GWBUF_LENGTH pkt < len")
        case w: True
        with c have lt: "gwbuf_length pkt < len" by simp
        from run True len w lt have "router' = router" "res = pkt" "tr = []"
          by (subst (asm) handle_loop.simps, simp add: Let_def)+
        with True len w lt show ?thesis using wait by auto
      next
        case w: False
        from run True len c w obtain r1 p1 tr'
          where f: "handle_message E router (hd pkt) = Some r1"
            "gwbuf_consume pkt len = Some p1"
            "handle_loop E r1 p1 = Some (router', res, tr')" "tr = take len (hd pkt) # tr'"
          by (subst (asm) handle_loop.simps)
             (auto simp: Let_def split: option.splits list.splits prod.splits)
        have "gwbuf_length p1 < gwbuf_length pkt"
          using gwbuf_consume_length [OF f(2)] message_len_pos [OF len] by linarith
        then have "P r1 p1 router' res tr'"
          using f(3) by (rule less.hyps)
        with True len w f show ?thesis
          using inplace by auto
      qed
    qed
  qed
qed

lemma handle_loop_preserves:
  assumes step: "\<And>r p r'. handle_message E r p = Some r' \<Longrightarrow> f r' = f r"
    and run: "handle_loop E router pkt = Some (router', res, tr)"
  shows "f router' = f router"
  using run by (induction rule: handle_loop_induct_Some) (auto dest: step)

lemma blr_rotate_event_queue:
  "blr_rotate_event E router ptr hdr = Some router' \<Longrightarrow> queue router' = queue router"
  by (auto simp: blr_rotate_event_def blr_file_rotate_def Let_def split: Option.bind_splits if_splits)

lemma blr_distribute_queue:
  "blr_distribute_binlog_record E router hdr ptr = Some router' \<Longrightarrow> queue router' = queue router"
  by (auto simp: blr_distribute_binlog_record_def split: option.splits)

lemma handle_message_queue:
  "handle_message E router ptr = Some router' \<Longrightarrow> queue router' = queue router"
  unfolding handle_message_def Let_def
  by (auto simp: blr_write_binlog_record_def split: Option.bind_splits if_splits
           dest!: blr_rotate_event_queue blr_distribute_queue)

lemma handle_loop_queue:
  "handle_loop E router pkt = Some (router', res, tr) \<Longrightarrow> queue router' = queue router"
  by (erule handle_loop_preserves [rotated]) (rule handle_message_queue)

lemma blr_handle_binlog_record_queue:
  "blr_handle_binlog_record E router pkt = Some router' \<Longrightarrow> queue router' = queue router"
  unfolding blr_handle_binlog_record_def blr_handle_binlog_record_trace_def Let_def
  by (auto simp: blr_file_flush_def split: option.splits if_splits
           dest!: handle_loop_queue)

lemma master_step_queue:
  "master_step E router buf = Some router' \<Longrightarrow> queue router' = queue router"
  unfolding master_step_def Let_def
  by (auto split: if_splits Option.bind_splits dest!: blr_handle_binlog_record_queue)

function master_loop ::
  "('f, 'e) blr_env_scheme \<Rightarrow> ('f, 'r) router_instance_scheme \<Rightarrow> gwbuf
     \<Rightarrow> ('f, 'r) router_instance_scheme option" where
  "master_loop E router buf =
     (case master_step E router buf of
        None \<Rightarrow> None
      | Some router' \<Rightarrow>
          (case queue router' of
             [] \<Rightarrow> Some (router'\<lparr>active_logs := 0\<rparr>)
           | seg # rest \<Rightarrow> master_loop E (router'\<lparr>queue := rest\<rparr>) [seg]))"
  by pat_completeness auto
termination
proof (relation "measure (\<lambda>(E, router, buf). length (queue router))", goal_cases)
  case 1
  show ?case by simp
next
  case (2 E router buf router' seg rest)
  then show ?case by (auto dest!: master_step_queue)
qed

declare master_loop.simps [simp del]

text \<open>
  \<^verbatim>\<open>blr_master_response\<close>. With \<^verbatim>\<open>active_logs\<close> set the buffer is appended to the queue.
  Otherwise the gate is taken, the state and the error marker of the delivered buffer
  are checked, and the loop runs: a step, then the next buffer of the queue, until the
  queue is empty. The buffers other threads append while the loop runs are the ones in
  the queue.
\<close>

definition blr_master_response ::
  "('f, 'e) blr_env_scheme \<Rightarrow> ('f, 'r) router_instance_scheme \<Rightarrow> gwbuf
     \<Rightarrow> ('f, 'r) router_instance_scheme option" where
  "blr_master_response E router buf =
     (if active_logs router \<noteq> 0
      then Some (router\<lparr>queue := gwbuf_append (queue router) buf\<rparr>)
      else
        let router = router\<lparr>active_logs := 1\<rparr> in
        if master_state router < 0 \<or> master_state router > BLRM_MAXSTATE
        then Some (router\<lparr>active_logs := 0\<rparr>)
        else
          (case MYSQL_RESPONSE_ERR buf of
             None \<Rightarrow> None
           | Some err \<Rightarrow>
               if err then Some (router\<lparr>active_logs := 0\<rparr>)
               else master_loop E router buf))"

section \<open>The codec\<close>

lemma low_byte: "(ucast ((v::32 word) AND 0xff) :: 8 word) = ucast v"
proof -
  have m: "(0xff :: 32 word) = mask 8" by (simp add: mask_eq_exp_minus_1)
  show ?thesis unfolding m
    by (rule bit_word_eqI) (auto simp: bit_simps)
qed

lemma encode_value_done: "len \<le> 0 \<Longrightarrow> encode_value v len = []"
  by (simp add: encode_value.simps)

lemma encode_value_step:
  "len > 0 \<Longrightarrow> encode_value v len = ucast v # encode_value (drop_bit 8 v) (len - 8)"
  by (subst encode_value.simps) (simp add: low_byte)

lemma encode_value_8: "encode_value v 8 = [ucast v]"
  by (simp add: encode_value_step encode_value_done)

lemma encode_value_16: "encode_value v 16 = [ucast v, ucast (drop_bit 8 v)]"
  by (simp add: encode_value_step encode_value_done)

lemma encode_value_24:
  "encode_value v 24 = [ucast v, ucast (drop_bit 8 v), ucast (drop_bit 16 v)]"
  by (simp add: encode_value_step encode_value_done)

lemma encode_value_32:
  "encode_value v 32 =
     [ucast v, ucast (drop_bit 8 v), ucast (drop_bit 16 v), ucast (drop_bit 24 v)]"
  by (simp add: encode_value_step encode_value_done)

lemma extract_loop_done: "bits \<le> 0 \<Longrightarrow> extract_loop src bits rval shift = Some rval"
  by (simp add: extract_loop.simps)

lemma extract_loop_Nil: "bits > 0 \<Longrightarrow> extract_loop [] bits rval shift = None"
  by (simp add: extract_loop.simps)

lemma extract_loop_Cons:
  "bits > 0 \<Longrightarrow> extract_loop (b # src) bits rval shift =
     (if shift \<ge> 32 then None
      else extract_loop src (bits - 8) (rval OR push_bit shift (ucast b)) (shift + 8))"
  by (subst extract_loop.simps) simp

lemma extract_field_8: "extract_field (b0 # rest) 8 = Some (ucast b0)"
  by (simp add: extract_field_def extract_loop_Cons extract_loop_done)

lemma extract_field_16:
  "extract_field (b0 # b1 # rest) 16 = Some (ucast b0 OR push_bit 8 (ucast b1))"
  by (simp add: extract_field_def extract_loop_Cons extract_loop_done)

lemma extract_field_24:
  "extract_field (b0 # b1 # b2 # rest) 24 =
     Some ((ucast b0 OR push_bit 8 (ucast b1)) OR push_bit 16 (ucast b2))"
  by (simp add: extract_field_def extract_loop_Cons extract_loop_done)

lemma extract_field_32:
  "extract_field (b0 # b1 # b2 # b3 # rest) 32 =
     Some (((ucast b0 OR push_bit 8 (ucast b1)) OR push_bit 16 (ucast b2))
             OR push_bit 24 (ucast b3))"
  by (simp add: extract_field_def extract_loop_Cons extract_loop_done)

lemma high_bits_clear:
  assumes "(v::32 word) < 2 ^ k" "k \<le> m"
  shows "\<not> bit v m"
proof -
  have "v AND mask k = v" using assms(1) by (rule less_mask_eq)
  then have "bit v m = bit (v AND mask k) m" by simp
  also have "\<dots> = False" using assms(2) by (simp add: bit_and_iff bit_mask_iff)
  finally show ?thesis by simp
qed

lemma bytes_le_8:
  assumes "(v::32 word) < 2 ^ 8"
  shows "(ucast (ucast v :: 8 word) :: 32 word) = v"
proof (rule bit_word_eqI)
  fix n assume "n < LENGTH(32)"
  then have n: "n < 32" by simp
  consider "n < 8" | "8 \<le> n" by linarith
  then show "bit (ucast (ucast v :: 8 word) :: 32 word) n = bit v n"
    using n high_bits_clear [OF assms] by cases (auto simp: bit_simps)
qed

lemma bytes_le_16:
  assumes "(v::32 word) < 2 ^ 16"
  shows "(ucast (ucast v :: 8 word) :: 32 word)
           OR push_bit 8 (ucast (ucast (drop_bit 8 v) :: 8 word)) = v"
proof (rule bit_word_eqI)
  fix n assume "n < LENGTH(32)"
  then have n: "n < 32" by simp
  consider "n < 8" | "8 \<le> n" "n < 16" | "16 \<le> n" by linarith
  then show "bit ((ucast (ucast v :: 8 word) :: 32 word)
           OR push_bit 8 (ucast (ucast (drop_bit 8 v) :: 8 word))) n = bit v n"
    using n high_bits_clear [OF assms] by cases (auto simp: bit_simps)
qed

lemma bytes_le_24:
  assumes "(v::32 word) < 2 ^ 24"
  shows "((ucast (ucast v :: 8 word) :: 32 word)
           OR push_bit 8 (ucast (ucast (drop_bit 8 v) :: 8 word)))
           OR push_bit 16 (ucast (ucast (drop_bit 16 v) :: 8 word)) = v"
proof (rule bit_word_eqI)
  fix n assume "n < LENGTH(32)"
  then have n: "n < 32" by simp
  consider "n < 8" | "8 \<le> n" "n < 16" | "16 \<le> n" "n < 24" | "24 \<le> n" by linarith
  then show "bit (((ucast (ucast v :: 8 word) :: 32 word)
           OR push_bit 8 (ucast (ucast (drop_bit 8 v) :: 8 word)))
           OR push_bit 16 (ucast (ucast (drop_bit 16 v) :: 8 word))) n = bit v n"
    using n high_bits_clear [OF assms] by cases (auto simp: bit_simps)
qed

lemma bytes_le_32:
  "(((ucast (ucast (v::32 word) :: 8 word) :: 32 word)
       OR push_bit 8 (ucast (ucast (drop_bit 8 v) :: 8 word)))
       OR push_bit 16 (ucast (ucast (drop_bit 16 v) :: 8 word)))
       OR push_bit 24 (ucast (ucast (drop_bit 24 v) :: 8 word)) = v"
proof (rule bit_word_eqI)
  fix n assume "n < LENGTH(32)"
  then have n: "n < 32" by simp
  consider "n < 8" | "8 \<le> n" "n < 16" | "16 \<le> n" "n < 24" | "24 \<le> n" by linarith
  then show "bit ((((ucast (ucast v :: 8 word) :: 32 word)
       OR push_bit 8 (ucast (ucast (drop_bit 8 v) :: 8 word)))
       OR push_bit 16 (ucast (ucast (drop_bit 16 v) :: 8 word)))
       OR push_bit 24 (ucast (ucast (drop_bit 24 v) :: 8 word))) n = bit v n"
    using n by cases (auto simp: bit_simps)
qed

text \<open>
  C7. For every width \<open>w\<close> of 8, 16, 24 and 32 bits and every value \<open>v < 2 ^ w\<close>,
  \<open>extract_field\<close> applied to the bytes \<open>encode_value\<close> stores for \<open>v\<close> at width \<open>w\<close>
  (whatever bytes follow them) returns \<open>v\<close>; the encoding has \<open>w / 8\<close> bytes, least
  significant first.
\<close>

theorem encode_extract_roundtrip:
  fixes v :: "32 word" and w :: nat
  assumes "w \<in> {8, 16, 24, 32}" and "unat v < 2 ^ w"
  shows "extract_field (encode_value v (int w) @ rest) (int w) = Some v
       \<and> length (encode_value v (int w)) = w div 8"
proof -
  consider "w = 8" | "w = 16" | "w = 24" | "w = 32" using assms(1) by auto
  then show ?thesis
  proof cases
    case 1
    then have "v < 2 ^ 8" using assms(2) by (simp add: word_less_nat_alt)
    then show ?thesis using 1
      by (simp add: encode_value_8 extract_field_8 bytes_le_8)
  next
    case 2
    then have "v < 2 ^ 16" using assms(2) by (simp add: word_less_nat_alt)
    then show ?thesis using 2
      by (simp add: encode_value_16 extract_field_16 bytes_le_16)
  next
    case 3
    then have "v < 2 ^ 24" using assms(2) by (simp add: word_less_nat_alt)
    then show ?thesis using 3
      by (simp add: encode_value_24 extract_field_24 bytes_le_24)
  next
    case 4
    then show ?thesis
      by (simp add: encode_value_32 extract_field_32 bytes_le_32)
  qed
qed

theorem encode_extract_roundtrip_witness:
  "(24::nat) \<in> {8, 16, 24, 32} \<and> unat (0x123456 :: 32 word) < 2 ^ 24
   \<and> extract_field (encode_value 0x123456 24 @ [0xaa]) 24 = Some 0x123456
   \<and> encode_value (0x123456 :: 32 word) 24 = [0x56, 0x34, 0x12]"
  using encode_extract_roundtrip [of 24 "0x123456" "[0xaa]"]
  by (simp add: encode_value_24)


section \<open>Concrete instances\<close>

text \<open>
  A setting of what the sources leave open, with \<open>BINLOG_FNAMELEN = 16\<close>, the value for
  which the payload length \<open>0x1b = 1 + 4 + 2 + 4 + 16\<close> of \<^verbatim>\<open>blr_make_binlog_dump\<close> is the
  length of its fields, and a router with no slaves, in state TIMESTAMP.
\<close>

definition env16 :: "unit blr_env" where
  "env16 = \<lparr>BINLOG_FNAMELEN = 16, shl_32 = (\<lambda>x. 0), slave_rotate_hook = (\<lambda>f p. f)\<rparr>"

definition saved0 :: saved_master where
  "saved0 = \<lparr>server_id = [], heartbeat = [], chksum1 = [], chksum2 = [], gtid_mode = [],
              uuid = [], setslaveuuid = [], setnames = [], fde_event = None, fde_len = 0\<rparr>"

definition stats0 :: router_stats where
  "stats0 = \<lparr>n_binlogs = 0, n_binlog_errors = 0, n_fakeevents = 0, n_rotates = 0,
              events = (\<lambda>t. 0)\<rparr>"

definition router0 :: "unit router_instance" where
  "router0 = \<lparr>master_state = BLRM_TIMESTAMP, active_logs = 0, queue = [], residual = [],
               saved_master = saved0, master = [], router_uuid = ''0b1e'',
               serverid = 3, masterid = 1, port = 3306,
               binlog_name = map byte_of_char ''bin.000001'', binlog_position = 4,
               slaves = [], stats = stats0, file_calls = []\<rparr>"

text \<open>Two slaves, at positions 1000 and 999, an event of 4 bytes that ends at position
  1004, and the router in state BINLOGDUMP that serves the two slaves.\<close>

definition slave1 :: "unit router_slave" where
  "slave1 = \<lparr>dcb = [], binlog_pos = 1000, seqno = 255, file_tracking = ()\<rparr>"

definition slave2 :: "unit router_slave" where
  "slave2 = \<lparr>dcb = [], binlog_pos = 999, seqno = 7, file_tracking = ()\<rparr>"

definition hdr1 :: rep_header where
  "hdr1 = \<lparr>payload_len = 5, hdr_seqno = 1, ok = 0, timestamp = 0, event_type = 2,
            hdr_serverid = 1, event_size = 4, next_pos = 1004, flags = 0\<rparr>"

definition router2 :: "unit router_instance" where
  "router2 = router0\<lparr>master_state := BLRM_BINLOGDUMP, slaves := [slave1, slave2]\<rparr>"

text \<open>A second event that follows the first, and an event of \<open>0xFFFFFF\<close> bytes for the
  slave at position 1000.\<close>

definition hdr1b :: rep_header where
  "hdr1b = hdr1\<lparr>next_pos := 1008\<rparr>"

definition hdr_big :: rep_header where
  "hdr_big = hdr1\<lparr>event_size := 0xFFFFFF, next_pos := 16778215\<rparr>"

definition event_big :: bytes where
  "event_big = replicate 16777215 0"

text \<open>A rotate event (19 header bytes as \<open>ptr\<close> sees them, then the position and the name)
  whose position is \<open>0x100000004\<close>: low half 4, high half 1.\<close>

definition rotate_hi :: bytes where
  "rotate_hi = replicate 19 0 @ [4, 0, 0, 0, 1, 0, 0, 0] @ map byte_of_char ''bin.000002''"

text \<open>Three messages as the master sends them (packet header, OK byte, event): an
  artificial rotate event naming \<open>bin.000002\<close> at position 4, an event of type 2 whose
  flags are the artificial flag and one more bit, and a format description event with
  the artificial flag and \<open>next_pos = 0\<close>.\<close>

definition msg_art_rotate :: bytes where
  "msg_art_rotate =
     [44, 0, 0, 1, 0, 0, 0, 0, 0, 4, 1, 0, 0, 0, 43, 0, 0, 0, 0, 0, 0, 0, 0x20, 0,
      4, 0, 0, 0, 0, 0, 0, 0,
      0x62, 0x69, 0x6e, 0x2e, 0x30, 0x30, 0x30, 0x30, 0x30, 0x32, 0, 0, 0, 0, 0, 0]"

definition msg_art_query :: bytes where
  "msg_art_query =
     [20, 0, 0, 1, 0, 0, 0, 0, 0, 2, 1, 0, 0, 0, 19, 0, 0, 0, 0xfb, 3, 0, 0, 0x21, 0]"

definition msg_fake_fde :: bytes where
  "msg_fake_fde =
     [20, 0, 0, 1, 0, 0, 0, 0, 0, 15, 1, 0, 0, 0, 19, 0, 0, 0, 0, 0, 0, 0, 0x20, 0]"

definition hdr_art_query :: rep_header where
  "hdr_art_query = \<lparr> payload_len = 20, hdr_seqno = 1, ok = 0, timestamp = 0, event_type = 2,
          hdr_serverid = 1, event_size = 19, next_pos = 1019, flags = 0x21 \<rparr>"

section \<open>The binlog dump packet\<close>

lemma length_strncpy_bytes [simp]: "length (strncpy_bytes src n) = n"
  by (simp add: strncpy_bytes_def)

lemma store_fresh:
  "off = length done \<Longrightarrow> store (map Some done @ replicate k None) off bs =
     (if length bs \<le> k then Some (map Some (done @ bs) @ replicate (k - length bs) None) else None)"
  by (auto simp: store_def)

lemma store_alloc:
  "store (gwbuf_alloc n) 0 bs =
     (if length bs \<le> n then Some (map Some bs @ replicate (n - length bs) None) else None)"
  using store_fresh [of 0 "[]" n bs] by (simp add: gwbuf_alloc_def)

lemma encode_value_length_32 [simp]: "length (encode_value v 32) = 4"
  by (simp add: encode_value_32)

lemma blr_make_binlog_dump_eq:
  "blr_make_binlog_dump E router =
     (if BINLOG_FNAMELEN E \<le> 16
      then Some (map Some ([0x1b, 0, 0, 0, COM_BINLOG_DUMP]
                   @ encode_value (ucast (binlog_position router)) 32
                   @ [0, 0]
                   @ encode_value (serverid router) 32
                   @ strncpy_bytes (binlog_name router) (BINLOG_FNAMELEN E))
                 @ replicate (16 - BINLOG_FNAMELEN E) None)
      else None)"
proof -
  let ?p = "encode_value (ucast (binlog_position router)) 32"
  let ?q = "encode_value (serverid router) 32"
  let ?nm = "strncpy_bytes (binlog_name router) (BINLOG_FNAMELEN E)"
  have s0: "store (gwbuf_alloc (0x1b + 4)) 0 (encode_value (of_nat 0x1b) 24)
              = Some (map Some [0x1b, 0, 0] @ replicate 28 None)"
    by (simp add: store_alloc encode_value_24)
  have s3: "store (map Some [0x1b, 0, 0] @ replicate 28 None) 3 [0]
              = Some (map Some [0x1b, 0, 0, 0] @ replicate 27 None)"
    by (subst store_fresh) simp_all
  have s4: "store (map Some [0x1b, 0, 0, 0] @ replicate 27 None) 4 [COM_BINLOG_DUMP]
              = Some (map Some [0x1b, 0, 0, 0, COM_BINLOG_DUMP] @ replicate 26 None)"
    by (subst store_fresh) simp_all
  have s5: "store (map Some [0x1b, 0, 0, 0, COM_BINLOG_DUMP] @ replicate 26 None) 5 ?p
              = Some (map Some ([0x1b, 0, 0, 0, COM_BINLOG_DUMP] @ ?p) @ replicate 22 None)"
    by (subst store_fresh) simp_all
  have s9: "store (map Some ([0x1b, 0, 0, 0, COM_BINLOG_DUMP] @ ?p) @ replicate 22 None) 9 (encode_value 0 16)
              = Some (map Some ([0x1b, 0, 0, 0, COM_BINLOG_DUMP] @ ?p @ [0, 0]) @ replicate 20 None)"
    by (subst store_fresh) (simp_all add: encode_value_16)
  have s11: "store (map Some ([0x1b, 0, 0, 0, COM_BINLOG_DUMP] @ ?p @ [0, 0]) @ replicate 20 None) 11 ?q
              = Some (map Some ([0x1b, 0, 0, 0, COM_BINLOG_DUMP] @ ?p @ [0, 0] @ ?q) @ replicate 16 None)"
    by (subst store_fresh) simp_all
  have s15: "store (map Some ([0x1b, 0, 0, 0, COM_BINLOG_DUMP] @ ?p @ [0, 0] @ ?q) @ replicate 16 None) 15 ?nm
              = (if BINLOG_FNAMELEN E \<le> 16
                 then Some (map Some ([0x1b, 0, 0, 0, COM_BINLOG_DUMP] @ ?p @ [0, 0] @ ?q @ ?nm)
                             @ replicate (16 - BINLOG_FNAMELEN E) None)
                 else None)"
    by (subst store_fresh) simp_all
  show ?thesis
    unfolding blr_make_binlog_dump_def Let_def
    by (simp only: s0 s3 s4 s5 s9 s11 s15 Option.bind.simps)
qed

lemma strncpy_bytes_padded:
  "strncpy_bytes src n = take n (cstr src) @ replicate (n - length (cstr src)) 0"
  by (simp add: strncpy_bytes_def)

text \<open>The stores of \<^verbatim>\<open>blr_make_binlog_dump\<close>, offset and bytes, in the order of the source.\<close>

definition binlog_dump_stores ::
  "('f, 'e) blr_env_scheme \<Rightarrow> ('f, 'r) router_instance_scheme \<Rightarrow> (nat \<times> bytes) list" where
  "binlog_dump_stores E router =
     [(0, encode_value (of_nat 0x1b) 24), (3, [0]), (4, [COM_BINLOG_DUMP]),
      (5, encode_value (ucast (binlog_position router)) 32), (9, encode_value 0 16),
      (11, encode_value (serverid router) 32),
      (15, strncpy_bytes (binlog_name router) (BINLOG_FNAMELEN E))]"

fun store_all :: "obuf \<Rightarrow> (nat \<times> bytes) list \<Rightarrow> obuf option" where
  "store_all buf [] = Some buf"
| "store_all buf ((off, bs) # rest) =
     (case store buf off bs of None \<Rightarrow> None | Some buf' \<Rightarrow> store_all buf' rest)"

lemma blr_make_binlog_dump_stores:
  "blr_make_binlog_dump E router
     = store_all (gwbuf_alloc (0x1b + 4)) (binlog_dump_stores E router)"
  by (simp add: blr_make_binlog_dump_def binlog_dump_stores_def Let_def
           split: option.splits Option.bind_splits)

text \<open>
  C9. With \<open>BINLOG_FNAMELEN = 16\<close>, \<^verbatim>\<open>blr_make_binlog_dump\<close> returns a packet of \<open>0x1b + 4\<close>
  bytes, all of them stored: the 24-bit length, which decodes to 0x1b, sequence id 0, and
  a payload of 0x1b bytes made of the COM\_BINLOG\_DUMP byte 0x12, the 32-bit position
  (the low 32 bits of \<open>binlog_position\<close>), 16-bit flags 0, the 32-bit server id and the
  name as a NUL-padded field of \<open>BINLOG_FNAMELEN\<close> bytes. The builder is the sequence of
  its seven stores, and every one of them lies within the buffer of \<open>0x1b + 4\<close> bytes.
\<close>

theorem blr_make_binlog_dump_packet:
  assumes "BINLOG_FNAMELEN E = 16"
  shows "blr_make_binlog_dump E router =
           Some (map Some (encode_value 0x1b 24 @ [0]
                   @ (COM_BINLOG_DUMP # encode_value (ucast (binlog_position router)) 32
                      @ encode_value 0 16
                      @ encode_value (serverid router) 32
                      @ strncpy_bytes (binlog_name router) (BINLOG_FNAMELEN E))))
   \<and> extract_field (encode_value 0x1b 24) 24 = Some 0x1b
   \<and> length (COM_BINLOG_DUMP # encode_value (ucast (binlog_position router)) 32
               @ encode_value 0 16 @ encode_value (serverid router) 32
               @ strncpy_bytes (binlog_name router) (BINLOG_FNAMELEN E)) = 0x1b
   \<and> COM_BINLOG_DUMP = 0x12
   \<and> encode_value 0 16 = [0, 0]
   \<and> length (encode_value (ucast (binlog_position router)) 32) = 4
   \<and> length (encode_value (serverid router) 32) = 4
   \<and> strncpy_bytes (binlog_name router) (BINLOG_FNAMELEN E)
         = take (BINLOG_FNAMELEN E) (cstr (binlog_name router))
           @ replicate (BINLOG_FNAMELEN E - length (cstr (binlog_name router))) 0
   \<and> length (strncpy_bytes (binlog_name router) (BINLOG_FNAMELEN E)) = BINLOG_FNAMELEN E
   \<and> blr_make_binlog_dump E router
         = store_all (gwbuf_alloc (0x1b + 4)) (binlog_dump_stores E router)
   \<and> (\<forall>(off, bs) \<in> set (binlog_dump_stores E router). off + length bs \<le> 0x1b + 4)"
proof -
  have 1: "blr_make_binlog_dump E router =
           Some (map Some (encode_value 0x1b 24 @ [0]
                   @ (COM_BINLOG_DUMP # encode_value (ucast (binlog_position router)) 32
                      @ encode_value 0 16
                      @ encode_value (serverid router) 32
                      @ strncpy_bytes (binlog_name router) (BINLOG_FNAMELEN E))))"
    using assms
    by (simp add: blr_make_binlog_dump_eq encode_value_24 encode_value_16 COM_BINLOG_DUMP_def)
  have 2: "extract_field (encode_value 0x1b 24) 24 = Some 0x1b"
    by (simp add: encode_value_24 extract_field_24)
  have 3: "length (COM_BINLOG_DUMP # encode_value (ucast (binlog_position router)) 32
               @ encode_value 0 16 @ encode_value (serverid router) 32
               @ strncpy_bytes (binlog_name router) (BINLOG_FNAMELEN E)) = 0x1b"
    using assms by (simp add: encode_value_16)
  have 4: "\<forall>(off, bs) \<in> set (binlog_dump_stores E router). off + length bs \<le> 0x1b + 4"
    using assms by (simp add: binlog_dump_stores_def encode_value_24 encode_value_16)
  show ?thesis
    by (intro conjI 1 2 3 4 blr_make_binlog_dump_stores strncpy_bytes_padded)
       (simp_all add: COM_BINLOG_DUMP_def encode_value_16)
qed

theorem blr_make_binlog_dump_packet_witness:
  "BINLOG_FNAMELEN env16 = 16
   \<and> blr_make_binlog_dump env16 router0 =
     Some (map Some [0x1b, 0, 0, 0, 0x12, 4, 0, 0, 0, 0, 0, 3, 0, 0, 0,
                     0x62, 0x69, 0x6e, 0x2e, 0x30, 0x30, 0x30, 0x30, 0x30, 0x31]
           @ replicate 6 (Some 0))"
proof -
  have h: "BINLOG_FNAMELEN env16 = 16" by (simp add: env16_def)
  from blr_make_binlog_dump_packet [OF h, of router0]
  have "blr_make_binlog_dump env16 router0 =
           Some (map Some (encode_value 0x1b 24 @ [0]
                   @ (COM_BINLOG_DUMP # encode_value (ucast (binlog_position router0)) 32
                      @ encode_value 0 16
                      @ encode_value (serverid router0) 32
                      @ strncpy_bytes (binlog_name router0) (BINLOG_FNAMELEN env16))))"
    by blast
  then show ?thesis
    by (simp add: env16_def router0_def encode_value_32 encode_value_24 encode_value_16
          COM_BINLOG_DUMP_def strncpy_bytes_def cstr_def byte_of_char_def)
qed

section \<open>Distribution to the slaves\<close>

lemma encode_value_length_24 [simp]: "length (encode_value v 24) = 3"
  by (simp add: encode_value_24)

lemma unat_plus_5:
  "unat (es :: 32 word) + 5 < 2 ^ 32 \<Longrightarrow> unat (es + 5) = unat es + 5"
  by (simp add: unat_word_ariths)

text \<open>The packet the specification describes for an event of \<open>es\<close> bytes at \<open>ptr\<close>
  sent with sequence id \<open>sq\<close>: the 24-bit length \<open>es + 1\<close>, the sequence id, the OK
  byte 0 and the event.\<close>

definition event_packet :: "32 word \<Rightarrow> byte \<Rightarrow> bytes \<Rightarrow> bytes" where
  "event_packet es sq ptr = encode_value (es + 1) 24 @ [sq, 0] @ take (unat es) ptr"

text \<open>What the specification says happens to one slave: a slave at
  \<open>next_pos - event_size\<close> is sent the packet, its sequence id moves on by one and its
  position becomes \<open>next_pos\<close> (and the rotate hook runs for a rotate event); any other
  slave is skipped.\<close>

definition deliver ::
  "('f, 'e) blr_env_scheme \<Rightarrow> rep_header \<Rightarrow> bytes \<Rightarrow> 'f router_slave \<Rightarrow> 'f router_slave" where
  "deliver E hdr ptr slave =
     (if binlog_pos slave = next_pos hdr - event_size hdr
      then (let s' = slave\<lparr>seqno := seqno slave + 1,
                     dcb := dcb slave @ [map Some (event_packet (event_size hdr) (seqno slave) ptr)],
                     binlog_pos := next_pos hdr\<rparr>
            in if event_type hdr = ROTATE_EVENT then blr_slave_rotate E s' ptr else s')
      else slave)"

text \<open>A stream of events, each distributed with \<^verbatim>\<open>blr_distribute_binlog_record\<close>.\<close>

fun distribute_events ::
  "('f, 'e) blr_env_scheme \<Rightarrow> ('f, 'r) router_instance_scheme \<Rightarrow> (rep_header \<times> bytes) list
     \<Rightarrow> ('f, 'r) router_instance_scheme option" where
  "distribute_events E router [] = Some router"
| "distribute_events E router ((hdr, ptr) # evs) =
     (case blr_distribute_binlog_record E router hdr ptr of
        None \<Rightarrow> None
      | Some router' \<Rightarrow> distribute_events E router' evs)"

lemma distribute_slave_match:
  assumes pos: "binlog_pos slave = next_pos hdr - event_size hdr"
    and rd: "unat (event_size hdr) \<le> length ptr"
    and sz: "unat (event_size hdr) + 5 < 2 ^ 32"
  shows "distribute_slave E hdr ptr slave = Some (deliver E hdr ptr slave)"
proof -
  let ?es = "event_size hdr"
  let ?sq = "seqno slave"
  let ?l = "encode_value (?es + 1) 24"
  have s0: "store (gwbuf_alloc (unat (?es + 5))) 0 ?l = Some (map Some ?l @ replicate (unat ?es + 2) None)"
    using sz by (simp add: store_alloc unat_plus_5)
  have s3: "store (map Some ?l @ replicate (unat ?es + 2) None) 3 [?sq]
      = Some (map Some (?l @ [?sq]) @ replicate (unat ?es + 1) None)"
    by (subst store_fresh) simp_all
  have s4: "store (map Some (?l @ [?sq]) @ replicate (unat ?es + 1) None) 4 [0]
      = Some (map Some (?l @ [?sq, 0]) @ replicate (unat ?es) None)"
    by (subst store_fresh) simp_all
  have m: "memcpy_src ptr (unat ?es) = Some (take (unat ?es) ptr)"
    using rd by (simp add: memcpy_src_def)
  have s5: "store (map Some (?l @ [?sq, 0]) @ replicate (unat ?es) None) 5 (take (unat ?es) ptr)
      = Some (map Some (event_packet ?es ?sq ptr))"
    using rd by (subst store_fresh) (simp_all add: event_packet_def)
  have "distribute_slave E hdr ptr slave =
     Some (if event_type hdr = ROTATE_EVENT
           then blr_slave_rotate E (slave\<lparr>seqno := seqno slave + 1,
                     dcb := dcb (slave\<lparr>seqno := seqno slave + 1\<rparr>) @ [map Some (event_packet ?es ?sq ptr)],
                     binlog_pos := next_pos hdr\<rparr>) ptr
           else slave\<lparr>seqno := seqno slave + 1,
                     dcb := dcb (slave\<lparr>seqno := seqno slave + 1\<rparr>) @ [map Some (event_packet ?es ?sq ptr)],
                     binlog_pos := next_pos hdr\<rparr>)"
    unfolding distribute_slave_def Let_def
    by (simp only: pos s0 s3 s4 m s5 Option.bind.simps) simp
  then show ?thesis by (simp add: deliver_def Let_def pos)
qed

lemma distribute_slave_skip:
  "binlog_pos slave \<noteq> next_pos hdr - event_size hdr \<Longrightarrow>
     distribute_slave E hdr ptr slave = Some (deliver E hdr ptr slave)"
  by (simp add: distribute_slave_def deliver_def)

lemma distribute_slave_deliver:
  assumes "unat (event_size hdr) \<le> length ptr" "unat (event_size hdr) + 5 < 2 ^ 32"
  shows "distribute_slave E hdr ptr slave = Some (deliver E hdr ptr slave)"
  using distribute_slave_match [OF _ assms] distribute_slave_skip
  by (cases "binlog_pos slave = next_pos hdr - event_size hdr") blast+

lemma distribute_slaves_pointwise:
  assumes "\<And>s. s \<in> set ss \<Longrightarrow> distribute_slave E hdr ptr s = Some (g s)"
  shows "distribute_slaves E hdr ptr ss = Some (map g ss)"
  using assms by (induction ss) auto

lemma blr_distribute_deliver:
  assumes "unat (event_size hdr) \<le> length ptr" "unat (event_size hdr) + 5 < 2 ^ 32"
  shows "blr_distribute_binlog_record E router hdr ptr
           = Some (router\<lparr>slaves := map (deliver E hdr ptr) (slaves router)\<rparr>)"
  by (simp add: blr_distribute_binlog_record_def
        distribute_slaves_pointwise [where g = "deliver E hdr ptr"] distribute_slave_deliver [OF assms])

text \<open>
  C2. Let the raw event hold \<open>event_size\<close> bytes (and \<open>event_size + 5\<close> not wrap around 32
  bits). Then \<^verbatim>\<open>blr_distribute_binlog_record\<close> returns, keeps the slave list in order, and
  for every slave of the list: a packet is written to the slave if and only if its
  \<open>binlog_pos\<close> equals \<open>next_pos - event_size\<close> (the 32-bit difference the code
  computes); a slave that is sent the event ends with \<open>binlog_pos = next_pos\<close>; a
  slave whose position does not match is left exactly as it was.
\<close>

theorem blr_distribute_binlog_record_positions:
  assumes rd: "unat (event_size hdr) \<le> length ptr"
    and sz: "unat (event_size hdr) + 5 < 2 ^ 32"
  shows "\<exists>ss. blr_distribute_binlog_record E router hdr ptr = Some (router\<lparr>slaves := ss\<rparr>)
     \<and> length ss = length (slaves router)
     \<and> (\<forall>i < length (slaves router).
          ((dcb (ss ! i) \<noteq> dcb (slaves router ! i))
             = (binlog_pos (slaves router ! i) = next_pos hdr - event_size hdr))
        \<and> (binlog_pos (slaves router ! i) = next_pos hdr - event_size hdr \<longrightarrow>
              dcb (ss ! i) = dcb (slaves router ! i)
                 @ [map Some (event_packet (event_size hdr) (seqno (slaves router ! i)) ptr)]
            \<and> binlog_pos (ss ! i) = next_pos hdr)
        \<and> (binlog_pos (slaves router ! i) \<noteq> next_pos hdr - event_size hdr \<longrightarrow>
              ss ! i = slaves router ! i))"
proof -
  let ?g = "deliver E hdr ptr"
  have "blr_distribute_binlog_record E router hdr ptr = Some (router\<lparr>slaves := map ?g (slaves router)\<rparr>)"
    by (rule blr_distribute_deliver [OF rd sz])
  moreover have "length (map ?g (slaves router)) = length (slaves router)" by simp
  moreover have "((dcb (map ?g (slaves router) ! i) \<noteq> dcb (slaves router ! i))
             = (binlog_pos (slaves router ! i) = next_pos hdr - event_size hdr))
        \<and> (binlog_pos (slaves router ! i) = next_pos hdr - event_size hdr \<longrightarrow>
              dcb (map ?g (slaves router) ! i) = dcb (slaves router ! i)
                 @ [map Some (event_packet (event_size hdr) (seqno (slaves router ! i)) ptr)]
            \<and> binlog_pos (map ?g (slaves router) ! i) = next_pos hdr)
        \<and> (binlog_pos (slaves router ! i) \<noteq> next_pos hdr - event_size hdr \<longrightarrow>
              map ?g (slaves router) ! i = slaves router ! i)"
    if "i < length (slaves router)" for i
    using that by (simp add: deliver_def Let_def blr_slave_rotate_def)
  ultimately show ?thesis by blast
qed

text \<open>The sequence ids a slave sees over a stream of events.\<close>

lemma event_packet_seq: "map Some (event_packet es sq ptr) ! 3 = Some sq"
  by (simp add: event_packet_def encode_value_24)

lemma deliver_seq:
  "deliver E hdr ptr s = s \<or>
   (dcb (deliver E hdr ptr s) = dcb s @ [map Some (event_packet (event_size hdr) (seqno s) ptr)]
    \<and> seqno (deliver E hdr ptr s) = seqno s + 1)"
  by (simp add: deliver_def Let_def blr_slave_rotate_def)

lemma fold_deliver_seq:
  "\<exists>new. dcb (fold (\<lambda>(h, p). deliver E h p) evs s) = dcb s @ new
        \<and> map (\<lambda>p. p ! 3) new = map (\<lambda>k. Some (seqno s + of_nat k)) [0..<length new]
        \<and> seqno (fold (\<lambda>(h, p). deliver E h p) evs s) = seqno s + of_nat (length new)"
proof (induction evs arbitrary: s)
  case Nil
  show ?case by simp
next
  case (Cons ev evs)
  obtain h p where ev: "ev = (h, p)" by (cases ev)
  let ?s1 = "deliver E h p s"
  from Cons.IH [of ?s1] obtain new where
    n: "dcb (fold (\<lambda>(h, p). deliver E h p) evs ?s1) = dcb ?s1 @ new"
       "map (\<lambda>p. p ! 3) new = map (\<lambda>k. Some (seqno ?s1 + of_nat k)) [0..<length new]"
       "seqno (fold (\<lambda>(h, p). deliver E h p) evs ?s1) = seqno ?s1 + of_nat (length new)"
    by blast
  from deliver_seq [of E h p s] show ?case
  proof
    assume "?s1 = s"
    with n show ?thesis by (auto simp: ev)
  next
    assume a: "dcb ?s1 = dcb s @ [map Some (event_packet (event_size h) (seqno s) p)]
               \<and> seqno ?s1 = seqno s + 1"
    let ?pkt = "map Some (event_packet (event_size h) (seqno s) p)"
    have shift: "map (\<lambda>k. Some (seqno s + of_nat k)) [0..<Suc (length new)]
                   = Some (seqno s) # map (\<lambda>k. Some (seqno s + 1 + of_nat k)) [0..<length new]"
      by (simp add: upt_conv_Cons map_Suc_upt [symmetric] add.assoc del: upt_Suc)
    have "dcb (fold (\<lambda>(h, p). deliver E h p) (ev # evs) s) = dcb s @ (?pkt # new)"
      using n(1) a by (simp add: ev)
    moreover have "map (\<lambda>p. p ! 3) (?pkt # new)
                     = map (\<lambda>k. Some (seqno s + of_nat k)) [0..<length (?pkt # new)]"
      using n(2) a shift by (simp add: event_packet_seq del: upt_Suc)
    moreover have "seqno (fold (\<lambda>(h, p). deliver E h p) (ev # evs) s)
                     = seqno s + of_nat (length (?pkt # new))"
      using n(3) a by (simp add: ev add.assoc)
    ultimately show ?thesis by blast
  qed
qed

lemma distribute_events_fold:
  assumes "\<forall>(hdr, ptr) \<in> set evs. unat (event_size hdr) \<le> length ptr \<and> unat (event_size hdr) + 5 < 2 ^ 32"
  shows "distribute_events E router evs
           = Some (router\<lparr>slaves := map (fold (\<lambda>(h, p). deliver E h p) evs) (slaves router)\<rparr>)"
  using assms
proof (induction evs arbitrary: router)
  case Nil
  show ?case by simp
next
  case (Cons ev evs)
  obtain h p where ev: "ev = (h, p)" by (cases ev)
  from Cons.prems have b: "unat (event_size h) \<le> length p" "unat (event_size h) + 5 < 2 ^ 32"
    and rest: "\<forall>(hdr, ptr) \<in> set evs. unat (event_size hdr) \<le> length ptr \<and> unat (event_size hdr) + 5 < 2 ^ 32"
    by (auto simp: ev)
  show ?case
    by (simp add: ev blr_distribute_deliver [OF b] Cons.IH [OF rest] comp_def)
qed


lemma bytes_take_bit_24:
  "((ucast (ucast (v::32 word) :: 8 word) :: 32 word)
           OR push_bit 8 (ucast (ucast (drop_bit 8 v) :: 8 word)))
           OR push_bit 16 (ucast (ucast (drop_bit 16 v) :: 8 word)) = take_bit 24 v"
proof (rule bit_word_eqI)
  fix n assume "n < LENGTH(32)"
  then have n: "n < 32" by simp
  consider "n < 8" | "8 \<le> n" "n < 16" | "16 \<le> n" "n < 24" | "24 \<le> n" by linarith
  then show "bit (((ucast (ucast v :: 8 word) :: 32 word)
           OR push_bit 8 (ucast (ucast (drop_bit 8 v) :: 8 word)))
           OR push_bit 16 (ucast (ucast (drop_bit 16 v) :: 8 word))) n = bit (take_bit 24 v) n"
    using n by cases (auto simp: bit_simps)
qed

lemma extract_encode_24:
  "extract_field (encode_value v 24 @ rest) 24 = Some (take_bit 24 v)"
  by (simp add: encode_value_24 extract_field_24 bytes_take_bit_24)

lemma unat_take_bit_24: "unat (take_bit 24 (w :: 32 word)) = unat w mod 2 ^ 24"
proof -
  have "unat (take_bit 24 w) = take_bit 24 (unat w)" by (rule unsigned_take_bit_eq)
  also have "\<dots> = unat w mod 2 ^ 24" by (rule take_bit_eq_mod)
  finally show ?thesis .
qed

lemma take_bit_24_self_iff: "(take_bit 24 (w :: 32 word) = w) = (unat w < 2 ^ 24)"
proof -
  have "(take_bit 24 w = w) = (unat (take_bit 24 w) = unat w)"
    by (simp add: word_unat_eq_iff)
  also have "\<dots> = (unat w mod 2 ^ 24 = unat w)" by (simp add: unat_take_bit_24)
  also have "\<dots> = (unat w < 2 ^ 24)"
    by (metis mod_less mod_less_divisor zero_less_numeral zero_less_power)
  finally show ?thesis .
qed

text \<open>
  C3 (as amended). For every event whose raw data holds \<open>event_size\<close> bytes (and whose
  \<open>event_size + 5\<close> does not wrap around 32 bits), the packet sent to a slave at the
  matching position has \<open>event_size + 5\<close> bytes: a 24-bit little-endian length that holds
  the low 24 bits of \<open>event_size + 1\<close>, which is \<open>event_size + 1\<close> itself exactly when
  \<open>event_size + 1 < 2 ^ 24\<close>, then the sequence id of the slave, the OK byte 0 and the
  \<open>event_size\<close> bytes of the event; the sequence id of the slave moves on by one modulo
  256. Over any stream of such events, the sequence ids of the packets a slave is sent
  are its starting sequence id, that plus one, that plus two, ..., in 8-bit arithmetic,
  and its sequence id ends that many steps on.
\<close>

theorem event_packet_framing:
  "(binlog_pos slave = next_pos hdr - event_size hdr
      \<and> unat (event_size hdr) \<le> length ptr \<and> unat (event_size hdr) + 5 < 2 ^ 32
      \<longrightarrow> (\<exists>slave' pkt. distribute_slave E hdr ptr slave = Some slave'
            \<and> dcb slave' = dcb slave @ [map Some pkt]
            \<and> length pkt = unat (event_size hdr) + 5
            \<and> extract_field pkt 24 = Some (take_bit 24 (event_size hdr + 1))
            \<and> unat (take_bit 24 (event_size hdr + 1)) = (unat (event_size hdr) + 1) mod 2 ^ 24
            \<and> (extract_field pkt 24 = Some (event_size hdr + 1))
                = (unat (event_size hdr) + 1 < 2 ^ 24)
            \<and> unat (event_size hdr + 1) = unat (event_size hdr) + 1
            \<and> pkt ! 3 = seqno slave \<and> pkt ! 4 = 0
            \<and> drop 5 pkt = take (unat (event_size hdr)) ptr
            \<and> length (drop 5 pkt) = unat (event_size hdr)
            \<and> unat (seqno slave') = (unat (seqno slave) + 1) mod 256))
   \<and> ((\<forall>(hdr, ptr) \<in> set evs.
          unat (event_size hdr) \<le> length ptr \<and> unat (event_size hdr) + 5 < 2 ^ 32)
      \<longrightarrow> (\<exists>router'. distribute_events E router evs = Some router'
            \<and> length (slaves router') = length (slaves router)
            \<and> (\<forall>i < length (slaves router). \<exists>new.
                 dcb (slaves router' ! i) = dcb (slaves router ! i) @ new
               \<and> map (\<lambda>p. p ! 3) new
                   = map (\<lambda>k. Some (seqno (slaves router ! i) + of_nat k)) [0..<length new]
               \<and> seqno (slaves router' ! i)
                   = seqno (slaves router ! i) + of_nat (length new))))"
proof (intro conjI impI)
  assume a: "binlog_pos slave = next_pos hdr - event_size hdr
      \<and> unat (event_size hdr) \<le> length ptr \<and> unat (event_size hdr) + 5 < 2 ^ 32"
  let ?es = "event_size hdr"
  let ?pkt = "event_packet ?es (seqno slave) ptr"
  from a have pos: "binlog_pos slave = next_pos hdr - ?es" and rd: "unat ?es \<le> length ptr"
    and sz: "unat ?es + 5 < 2 ^ 32" by simp_all
  have u: "unat (?es + 1) = unat ?es + 1"
    using sz by (simp add: unat_word_ariths)
  have d: "distribute_slave E hdr ptr slave = Some (deliver E hdr ptr slave)"
    by (rule distribute_slave_match [OF pos rd sz])
  have 1: "dcb (deliver E hdr ptr slave) = dcb slave @ [map Some ?pkt]"
    by (simp add: deliver_def pos Let_def blr_slave_rotate_def)
  have 2: "length ?pkt = unat ?es + 5"
    using rd by (simp add: event_packet_def)
  have 3: "extract_field ?pkt 24 = Some (take_bit 24 (?es + 1))"
    unfolding event_packet_def by (rule extract_encode_24)
  have lf_mod: "unat (take_bit 24 (?es + 1)) = (unat ?es + 1) mod 2 ^ 24"
    by (simp only: unat_take_bit_24 u)
  have lf_iff: "(extract_field ?pkt 24 = Some (?es + 1)) = (unat ?es + 1 < 2 ^ 24)"
    using take_bit_24_self_iff [of "?es + 1"] by (simp only: 3 u option.inject)
  have 4: "?pkt ! 3 = seqno slave \<and> ?pkt ! 4 = 0"
    by (simp add: event_packet_def encode_value_24)
  have 5: "drop 5 ?pkt = take (unat ?es) ptr"
    by (simp add: event_packet_def encode_value_24)
  have 6: "unat (seqno (deliver E hdr ptr slave)) = (unat (seqno slave) + 1) mod 256"
    by (simp add: deliver_def pos Let_def blr_slave_rotate_def unat_word_ariths)
  have 7: "length (drop 5 ?pkt) = unat ?es"
    using rd by (simp add: 5)
  show "\<exists>slave' pkt. distribute_slave E hdr ptr slave = Some slave'
            \<and> dcb slave' = dcb slave @ [map Some pkt]
            \<and> length pkt = unat (event_size hdr) + 5
            \<and> extract_field pkt 24 = Some (take_bit 24 (event_size hdr + 1))
            \<and> unat (take_bit 24 (event_size hdr + 1)) = (unat (event_size hdr) + 1) mod 2 ^ 24
            \<and> (extract_field pkt 24 = Some (event_size hdr + 1))
                = (unat (event_size hdr) + 1 < 2 ^ 24)
            \<and> unat (event_size hdr + 1) = unat (event_size hdr) + 1
            \<and> pkt ! 3 = seqno slave \<and> pkt ! 4 = 0
            \<and> drop 5 pkt = take (unat (event_size hdr)) ptr
            \<and> length (drop 5 pkt) = unat (event_size hdr)
            \<and> unat (seqno slave') = (unat (seqno slave) + 1) mod 256"
    using d 1 2 3 lf_mod lf_iff u 4 5 7 6 by blast
next
  assume b: "\<forall>(hdr, ptr) \<in> set evs.
          unat (event_size hdr) \<le> length ptr \<and> unat (event_size hdr) + 5 < 2 ^ 32"
  let ?f = "fold (\<lambda>(h, p). deliver E h p) evs"
  have r: "distribute_events E router evs = Some (router\<lparr>slaves := map ?f (slaves router)\<rparr>)"
    by (rule distribute_events_fold [OF b])
  have "\<exists>new. dcb (map ?f (slaves router) ! i) = dcb (slaves router ! i) @ new
               \<and> map (\<lambda>p. p ! 3) new
                   = map (\<lambda>k. Some (seqno (slaves router ! i) + of_nat k)) [0..<length new]
               \<and> seqno (map ?f (slaves router) ! i)
                   = seqno (slaves router ! i) + of_nat (length new)"
    if "i < length (slaves router)" for i
    using that fold_deliver_seq [of E evs "slaves router ! i"] by simp
  then show "\<exists>router'. distribute_events E router evs = Some router'
            \<and> length (slaves router') = length (slaves router)
            \<and> (\<forall>i < length (slaves router). \<exists>new.
                 dcb (slaves router' ! i) = dcb (slaves router ! i) @ new
               \<and> map (\<lambda>p. p ! 3) new
                   = map (\<lambda>k. Some (seqno (slaves router ! i) + of_nat k)) [0..<length new]
               \<and> seqno (slaves router' ! i)
                   = seqno (slaves router ! i) + of_nat (length new))"
    using r by (intro exI [of _ "router\<lparr>slaves := map ?f (slaves router)\<rparr>"]) simp
qed

text \<open>An event of \<open>0xFFFFFF\<close> bytes: the length field of the packet holds 0, not
  \<open>event_size + 1 = 0x1000000\<close>.\<close>

theorem event_packet_framing_counterexample:
  "distribute_slave env16 hdr_big event_big slave1
     = Some (slave1\<lparr>seqno := 0, dcb := [map Some (event_packet 0xFFFFFF 255 event_big)],
                    binlog_pos := 16778215\<rparr>)
   \<and> take 3 (event_packet 0xFFFFFF 255 event_big) = [0, 0, 0]
   \<and> extract_field (event_packet 0xFFFFFF 255 event_big) 24 = Some 0
   \<and> unat (event_size hdr_big) + 1 = 0x1000000"
proof -
  have pos: "binlog_pos slave1 = next_pos hdr_big - event_size hdr_big"
    by (simp add: slave1_def hdr_big_def hdr1_def)
  have rd: "unat (event_size hdr_big) \<le> length event_big"
    by (simp add: hdr_big_def hdr1_def event_big_def)
  have sz: "unat (event_size hdr_big) + 5 < 2 ^ 32"
    by (simp add: hdr_big_def hdr1_def)
  have e: "encode_value (0xFFFFFF + 1) 24 = [0, 0, 0]"
    by (simp add: encode_value_24)
  have "deliver env16 hdr_big event_big slave1
          = slave1\<lparr>seqno := 0, dcb := [map Some (event_packet 0xFFFFFF 255 event_big)],
                    binlog_pos := 16778215\<rparr>"
    by (simp add: deliver_def Let_def slave1_def hdr_big_def hdr1_def ROTATE_EVENT_def)
  then have "distribute_slave env16 hdr_big event_big slave1
     = Some (slave1\<lparr>seqno := 0, dcb := [map Some (event_packet 0xFFFFFF 255 event_big)],
                    binlog_pos := 16778215\<rparr>)"
    using distribute_slave_match [OF pos rd sz, of env16] by simp
  moreover have "take 3 (event_packet 0xFFFFFF 255 event_big) = [0, 0, 0]"
    unfolding event_packet_def e by simp
  moreover have "extract_field (event_packet 0xFFFFFF 255 event_big) 24 = Some 0"
    unfolding event_packet_def e by (simp add: extract_field_24)
  moreover have "unat (event_size hdr_big) + 1 = 0x1000000"
    by (simp add: hdr_big_def hdr1_def)
  ultimately show ?thesis by blast
qed


theorem event_packet_framing_witness:
  "binlog_pos slave1 = next_pos hdr1 - event_size hdr1
   \<and> unat (event_size hdr1) \<le> length [0xde, 0xad, 0xbe, 0xef :: byte]
   \<and> unat (event_size hdr1) + 5 < (2::nat) ^ 32
   \<and> (\<exists>slave' pkt. distribute_slave env16 hdr1 [0xde, 0xad, 0xbe, 0xef] slave1 = Some slave'
          \<and> dcb slave' = dcb slave1 @ [map Some pkt]
          \<and> length pkt = 9
          \<and> extract_field pkt 24 = Some 5
          \<and> pkt ! 3 = 255 \<and> pkt ! 4 = 0
          \<and> drop 5 pkt = [0xde, 0xad, 0xbe, 0xef]
          \<and> unat (seqno slave') = 0)
   \<and> (\<exists>router'. distribute_events env16 router2
                     [(hdr1, [0xde, 0xad, 0xbe, 0xef]), (hdr1b, [1, 2, 3, 4])] = Some router'
          \<and> length (slaves router') = 2
          \<and> (\<exists>new. dcb (slaves router' ! 0) = dcb slave1 @ new
                \<and> map (\<lambda>p. p ! 3) new = map (\<lambda>k. Some (255 + of_nat k)) [0..<length new]
                \<and> seqno (slaves router' ! 0) = 255 + of_nat (length new)))"
proof -
  let ?ptr = "[0xde, 0xad, 0xbe, 0xef :: byte]"
  let ?evs = "[(hdr1, ?ptr), (hdr1b, [1, 2, 3, 4 :: byte])]"
  note t = event_packet_framing [of slave1 hdr1 ?ptr env16 ?evs router2]
  have h: "binlog_pos slave1 = next_pos hdr1 - event_size hdr1
      \<and> unat (event_size hdr1) \<le> length ?ptr \<and> unat (event_size hdr1) + 5 < (2::nat) ^ 32"
    by (simp add: slave1_def hdr1_def)
  have g: "\<forall>(hdr, ptr) \<in> set ?evs.
          unat (event_size hdr) \<le> length ptr \<and> unat (event_size hdr) + 5 < (2::nat) ^ 32"
    by (simp add: hdr1_def hdr1b_def)
  have s: "slaves router2 = [slave1, slave2]" by (simp add: router2_def)
  from t h obtain slave' pkt where a:
    "distribute_slave env16 hdr1 ?ptr slave1 = Some slave'"
    "dcb slave' = dcb slave1 @ [map Some pkt]"
    "length pkt = unat (event_size hdr1) + 5"
    "(extract_field pkt 24 = Some (event_size hdr1 + 1))
       = (unat (event_size hdr1) + 1 < 2 ^ 24)"
    "pkt ! 3 = seqno slave1" "pkt ! 4 = 0"
    "drop 5 pkt = take (unat (event_size hdr1)) ?ptr"
    "unat (seqno slave') = (unat (seqno slave1) + 1) mod 256"
    by blast
  from t g obtain router' where b:
    "distribute_events env16 router2 ?evs = Some router'"
    "length (slaves router') = length (slaves router2)"
    "\<forall>i < length (slaves router2). \<exists>new.
        dcb (slaves router' ! i) = dcb (slaves router2 ! i) @ new
      \<and> map (\<lambda>p. p ! 3) new
          = map (\<lambda>k. Some (seqno (slaves router2 ! i) + of_nat k)) [0..<length new]
      \<and> seqno (slaves router' ! i) = seqno (slaves router2 ! i) + of_nat (length new)"
    by blast
  from b(3) [rule_format, of 0] have c: "\<exists>new. dcb (slaves router' ! 0) = dcb slave1 @ new
                \<and> map (\<lambda>p. p ! 3) new = map (\<lambda>k. Some (255 + of_nat k)) [0..<length new]
                \<and> seqno (slaves router' ! 0) = 255 + of_nat (length new)"
    by (simp add: s slave1_def)
  have A: "\<exists>slave' pkt. distribute_slave env16 hdr1 ?ptr slave1 = Some slave'
          \<and> dcb slave' = dcb slave1 @ [map Some pkt]
          \<and> length pkt = 9
          \<and> extract_field pkt 24 = Some 5
          \<and> pkt ! 3 = 255 \<and> pkt ! 4 = 0
          \<and> drop 5 pkt = ?ptr
          \<and> unat (seqno slave') = 0"
    by (intro exI [of _ slave'] exI [of _ pkt] conjI)
       (use a in \<open>simp_all add: hdr1_def slave1_def\<close>)
  have B: "\<exists>router'. distribute_events env16 router2 ?evs = Some router'
          \<and> length (slaves router') = 2
          \<and> (\<exists>new. dcb (slaves router' ! 0) = dcb slave1 @ new
                \<and> map (\<lambda>p. p ! 3) new = map (\<lambda>k. Some (255 + of_nat k)) [0..<length new]
                \<and> seqno (slaves router' ! 0) = 255 + of_nat (length new))"
    by (intro exI [of _ router'] conjI) (use b(1,2) c in \<open>simp_all add: s\<close>)
  from h A B show ?thesis by blast
qed

theorem blr_distribute_binlog_record_positions_witness:
  "unat (event_size hdr1) \<le> length [0xde, 0xad, 0xbe, 0xef :: byte]
   \<and> unat (event_size hdr1) + 5 < (2::nat) ^ 32
   \<and> (\<exists>ss. blr_distribute_binlog_record env16 router2 hdr1 [0xde, 0xad, 0xbe, 0xef]
               = Some (router2\<lparr>slaves := ss\<rparr>)
          \<and> length ss = 2
          \<and> dcb (ss ! 0) = [map Some [5, 0, 0, 255, 0, 0xde, 0xad, 0xbe, 0xef]]
          \<and> binlog_pos (ss ! 0) = 1004
          \<and> ss ! 1 = slave2)"
proof -
  let ?ptr = "[0xde, 0xad, 0xbe, 0xef :: byte]"
  have h1: "unat (event_size hdr1) \<le> length ?ptr" by (simp add: hdr1_def)
  have h2: "unat (event_size hdr1) + 5 < (2::nat) ^ 32" by (simp add: hdr1_def)
  have s: "slaves router2 = [slave1, slave2]" by (simp add: router2_def)
  obtain ss where r: "blr_distribute_binlog_record env16 router2 hdr1 ?ptr
                        = Some (router2\<lparr>slaves := ss\<rparr>)"
    and len: "length ss = length (slaves router2)"
    and each: "\<And>i. i < length (slaves router2) \<Longrightarrow>
          ((dcb (ss ! i) \<noteq> dcb (slaves router2 ! i))
             = (binlog_pos (slaves router2 ! i) = next_pos hdr1 - event_size hdr1))
        \<and> (binlog_pos (slaves router2 ! i) = next_pos hdr1 - event_size hdr1 \<longrightarrow>
              dcb (ss ! i) = dcb (slaves router2 ! i)
                 @ [map Some (event_packet (event_size hdr1) (seqno (slaves router2 ! i)) ?ptr)]
            \<and> binlog_pos (ss ! i) = next_pos hdr1)
        \<and> (binlog_pos (slaves router2 ! i) \<noteq> next_pos hdr1 - event_size hdr1 \<longrightarrow>
              ss ! i = slaves router2 ! i)"
    using blr_distribute_binlog_record_positions [OF h1 h2, of env16 router2] by blast
  have a: "dcb (ss ! 0) = [map Some [5, 0, 0, 255, 0, 0xde, 0xad, 0xbe, 0xef]]
           \<and> binlog_pos (ss ! 0) = 1004"
    using each [of 0] by (simp add: s slave1_def hdr1_def event_packet_def encode_value_24)
  have b: "ss ! 1 = slave2"
    using each [of 1] by (simp add: s slave2_def hdr1_def)
  have len2: "length ss = 2" using len by (simp add: s)
  show ?thesis
    by (intro conjI exI [of _ ss]) (use h1 h2 r len2 a b in simp_all)
qed


section \<open>Rotate events\<close>

lemma ucast_32_64_bound: "unat (ucast (w :: 32 word) :: 64 word) < 2 ^ 32"
proof -
  have "unat (ucast w :: 64 word) = take_bit 64 (unat w)"
    by (simp add: unsigned_ucast_eq)
  also have "\<dots> \<le> unat w" by (rule take_bit_nat_less_eq_self)
  also have "unat w < 2 ^ 32" using unsigned_less [of w, where 'a = nat] by simp
  finally show ?thesis .
qed

lemma rotate_pos_below:
  "rotate_pos E ptr = Some pos \<Longrightarrow> unat pos < 2 ^ 32"
  using ucast_32_64_bound by (auto simp: rotate_pos_def split: Option.bind_splits)

text \<open>
  C5. The position \<^verbatim>\<open>blr_rotate_event\<close> computes is a 32-bit sum widened to 64 bits, so
  the high half of the position in the event never reaches bit 32 and above: for the
  rotate event with low half 4 and high half 1 the position is \<open>4 + shl_32 E 1\<close> taken
  modulo \<open>2 ^ 32\<close>, whatever the platform makes of the shift, and not \<open>0x100000004\<close>.
\<close>

theorem rotate_pos_high_half_lost:
  "rotate_pos E rotate_hi = Some (ucast (4 + shl_32 E 1))
   \<and> unat (ucast (4 + shl_32 E 1) :: 64 word) < 2 ^ 32
   \<and> rotate_pos E rotate_hi \<noteq> Some 0x100000004"
proof -
  have e: "rotate_pos E rotate_hi = Some (ucast (4 + shl_32 E 1))"
    by (simp add: rotate_hi_def rotate_pos_def extract_field_32)
  have b: "unat (ucast (4 + shl_32 E 1) :: 64 word) < 2 ^ 32"
    by (rule ucast_32_64_bound)
  have "(ucast (4 + shl_32 E 1) :: 64 word) \<noteq> 0x100000004"
    using b by auto
  with e b show ?thesis by simp
qed

section \<open>Artificial events\<close>

text \<open>The statistics of one event with OK byte 0: the event count and the histogram.\<close>

definition count_event ::
  "('f, 'r) router_instance_scheme \<Rightarrow> rep_header \<Rightarrow> ('f, 'r) router_instance_scheme" where
  "count_event router hdr =
     (let router = router\<lparr>stats := (stats router)\<lparr>n_binlogs := n_binlogs (stats router) + 1\<rparr>\<rparr>
      in if event_type hdr < 0x24
         then router\<lparr>stats := (stats router)\<lparr>events := (events (stats router))
                  (event_type hdr := events (stats router) (event_type hdr) + 1)\<rparr>\<rparr>
         else router)"

lemma extract_field_32_some:
  "4 \<le> length p \<Longrightarrow> \<exists>v. extract_field p 32 = Some v"
proof -
  assume "4 \<le> length p"
  then obtain a b c d r where "p = a # b # c # d # r"
    by (cases p; cases "tl p"; cases "tl (tl p)"; cases "tl (tl (tl p))") auto
  then show ?thesis by (simp add: extract_field_32)
qed

lemma blr_rotate_event_some:
  assumes "19 + 8 + BINLOG_FNAMELEN E \<le> length ptr"
  shows "\<exists>r'. blr_rotate_event E router ptr hdr = Some r'"
proof -
  have "4 \<le> length (drop 19 ptr)" "4 \<le> length (drop (19 + 4) ptr)"
    using assms by simp_all
  then obtain lo hi where lo: "extract_field (drop 19 ptr) 32 = Some lo"
    and hi: "extract_field (drop (19 + 4) ptr) 32 = Some hi"
    using extract_field_32_some by blast
  have m: "memcpy_src (drop (19 + 8) ptr) (BINLOG_FNAMELEN E)
             = Some (take (BINLOG_FNAMELEN E) (drop (19 + 8) ptr))"
    using assms by (simp add: memcpy_src_def)
  show ?thesis
    unfolding blr_rotate_event_def rotate_pos_def Let_def
    by (simp only: lo hi m Option.bind.simps) auto
qed

lemma blr_rotate_event_frame:
  assumes "blr_rotate_event E router ptr hdr = Some r'"
  shows "r' = router\<lparr>stats := stats r', binlog_name := binlog_name r',
                      binlog_position := binlog_position r', file_calls := file_calls r'\<rparr>
       \<and> (file_calls r' = file_calls router
            \<or> (\<exists>name pos. file_calls r' = file_calls router @ [FileRotate name pos]))"
  using assms
  by (auto simp: blr_rotate_event_def blr_file_rotate_def Let_def
           split: Option.bind_splits if_splits)

text \<open>The fake format description event: the count of fake events, and the saved copy
  of the \<open>event_size\<close> bytes at \<open>ptr\<close> with its length.\<close>

definition save_fde ::
  "('f, 'r) router_instance_scheme \<Rightarrow> rep_header \<Rightarrow> bytes \<Rightarrow> ('f, 'r) router_instance_scheme" where
  "save_fde router hdr ptr =
     router\<lparr>stats := (stats router)\<lparr>n_fakeevents := n_fakeevents (stats router) + 1\<rparr>,
            saved_master := (saved_master router)
              \<lparr>fde_len := event_size hdr, fde_event := Some (take (unat (event_size hdr)) ptr)\<rparr>\<rparr>"

lemma handle_message_unwritten:
  assumes "blr_extract_header ptr = Some hdr" "ok hdr = 0"
    "event_type hdr = HEARTBEAT_EVENT
       \<or> (event_type hdr = FORMAT_DESCRIPTION_EVENT \<and> next_pos hdr = 0)
       \<or> flags hdr = LOG_EVENT_ARTIFICIAL_F"
  shows "handle_message E router ptr =
     (if event_type hdr = FORMAT_DESCRIPTION_EVENT \<and> next_pos hdr = 0
      then (if unat (event_size hdr) \<le> length (drop 5 ptr)
            then Some (save_fde (count_event router hdr) hdr (drop 5 ptr)) else None)
      else if event_type hdr = ROTATE_EVENT
      then blr_rotate_event E (count_event router hdr) (drop 5 ptr) hdr
      else Some (count_event router hdr))"
  using assms
  by (auto simp: handle_message_def count_event_def save_fde_def memcpy_src_def Let_def
        HEARTBEAT_EVENT_def ROTATE_EVENT_def FORMAT_DESCRIPTION_EVENT_def)


lemma blr_extract_header_eq:
  "blr_extract_header
     (p0 # p1 # p2 # sq # okb # t0 # t1 # t2 # t3 # et # s0 # s1 # s2 # s3
        # e0 # e1 # e2 # e3 # n0 # n1 # n2 # n3 # f0 # f1 # rest) =
   Some \<lparr> payload_len = (ucast p0 OR push_bit 8 (ucast p1)) OR push_bit 16 (ucast p2),
          hdr_seqno = sq, ok = okb,
          timestamp = ((ucast t0 OR push_bit 8 (ucast t1)) OR push_bit 16 (ucast t2)) OR push_bit 24 (ucast t3),
          event_type = et,
          hdr_serverid = ((ucast s0 OR push_bit 8 (ucast s1)) OR push_bit 16 (ucast s2)) OR push_bit 24 (ucast s3),
          event_size = ((ucast e0 OR push_bit 8 (ucast e1)) OR push_bit 16 (ucast e2)) OR push_bit 24 (ucast e3),
          next_pos = ((ucast n0 OR push_bit 8 (ucast n1)) OR push_bit 16 (ucast n2)) OR push_bit 24 (ucast n3),
          flags = ucast f0 OR push_bit 8 (ucast f1) \<rparr>"
  by (simp add: blr_extract_header_def extract_field_24 extract_field_32 extract_field_16 nth_opt_def)

lemma header_msg_art_rotate: "blr_extract_header msg_art_rotate =
   Some \<lparr> payload_len = 44, hdr_seqno = 1, ok = 0, timestamp = 0, event_type = 4,
          hdr_serverid = 1, event_size = 43, next_pos = 0, flags = 0x20 \<rparr>"
  by (simp add: msg_art_rotate_def blr_extract_header_eq)

lemma header_msg_art_query: "blr_extract_header msg_art_query =
   Some \<lparr> payload_len = 20, hdr_seqno = 1, ok = 0, timestamp = 0, event_type = 2,
          hdr_serverid = 1, event_size = 19, next_pos = 1019, flags = 0x21 \<rparr>"
  by (simp add: msg_art_query_def blr_extract_header_eq)

lemma header_msg_fake_fde: "blr_extract_header msg_fake_fde =
   Some \<lparr> payload_len = 20, hdr_seqno = 1, ok = 0, timestamp = 0, event_type = 15,
          hdr_serverid = 1, event_size = 19, next_pos = 0, flags = 0x20 \<rparr>"
  by (simp add: msg_fake_fde_def blr_extract_header_eq)


text \<open>
  C4 (as amended). For a message with OK byte 0 that is a heartbeat event or a format
  description event with \<open>next_pos = 0\<close> (each whatever its flags), or whose flags field
  is \<open>LOG_EVENT_ARTIFICIAL_F\<close>: the ingest counts the event; for a format description
  event with \<open>next_pos = 0\<close> it counts a fake event and saves the \<open>event_size\<close> bytes of
  the event and their number as the saved format description event; otherwise, for a
  rotate event, it runs \<^verbatim>\<open>blr_rotate_event\<close>; and it does nothing else. It returns whenever
  the bytes it reads are there: the event of a format description event with
  \<open>next_pos = 0\<close>, the position and the name of a rotate event. Nothing is written to
  the binlog file and no slave is touched; every field of the router other than the
  statistics, \<open>binlog_name\<close>, \<open>binlog_position\<close> and the record of the rotate call is
  unchanged, but for the saved format description event and its length, which only a
  format description event with \<open>next_pos = 0\<close> replaces.
\<close>

theorem artificial_event_frame:
  assumes "blr_extract_header ptr = Some hdr" and "ok hdr = 0"
    and "event_type hdr = HEARTBEAT_EVENT
           \<or> (event_type hdr = FORMAT_DESCRIPTION_EVENT \<and> next_pos hdr = 0)
           \<or> flags hdr = LOG_EVENT_ARTIFICIAL_F"
  shows "handle_message E router ptr =
           (if event_type hdr = FORMAT_DESCRIPTION_EVENT \<and> next_pos hdr = 0
            then (if unat (event_size hdr) \<le> length (drop 5 ptr)
                  then Some (save_fde (count_event router hdr) hdr (drop 5 ptr)) else None)
            else if event_type hdr = ROTATE_EVENT
            then blr_rotate_event E (count_event router hdr) (drop 5 ptr) hdr
            else Some (count_event router hdr))
       \<and> ((event_type hdr = FORMAT_DESCRIPTION_EVENT \<and> next_pos hdr = 0
              \<longrightarrow> 5 + unat (event_size hdr) \<le> length ptr)
          \<and> (event_type hdr = ROTATE_EVENT \<longrightarrow> 5 + (19 + 8 + BINLOG_FNAMELEN E) \<le> length ptr)
            \<longrightarrow> (\<exists>r'. handle_message E router ptr = Some r'))
       \<and> (\<forall>r'. handle_message E router ptr = Some r' \<longrightarrow>
              r' = router\<lparr>stats := stats r', binlog_name := binlog_name r',
                           binlog_position := binlog_position r', file_calls := file_calls r',
                           saved_master :=
                             (if event_type hdr = FORMAT_DESCRIPTION_EVENT \<and> next_pos hdr = 0
                              then (saved_master router)
                                     \<lparr>fde_len := event_size hdr,
                                      fde_event := Some (take (unat (event_size hdr)) (drop 5 ptr))\<rparr>
                              else saved_master router)\<rparr>
            \<and> slaves r' = slaves router
            \<and> (file_calls r' = file_calls router
                 \<or> (event_type hdr = ROTATE_EVENT
                      \<and> (\<exists>name pos. file_calls r' = file_calls router @ [FileRotate name pos]))))"
proof -
  let ?fake = "event_type hdr = FORMAT_DESCRIPTION_EVENT \<and> next_pos hdr = 0"
  note eq = handle_message_unwritten [OF assms, of E router]
  have ne: "FORMAT_DESCRIPTION_EVENT \<noteq> ROTATE_EVENT"
    by (simp add: FORMAT_DESCRIPTION_EVENT_def ROTATE_EVENT_def)
  have some: "\<exists>r'. handle_message E router ptr = Some r'"
    if t: "(?fake \<longrightarrow> 5 + unat (event_size hdr) \<le> length ptr)
          \<and> (event_type hdr = ROTATE_EVENT \<longrightarrow> 5 + (19 + 8 + BINLOG_FNAMELEN E) \<le> length ptr)"
  proof -
    consider (fake) "?fake" | (rot) "\<not> ?fake" "event_type hdr = ROTATE_EVENT"
      | (other) "\<not> ?fake" "event_type hdr \<noteq> ROTATE_EVENT" by blast
    then show ?thesis
    proof cases
      case fake
      with t have "5 + unat (event_size hdr) \<le> length ptr" by blast
      then have "unat (event_size hdr) \<le> length (drop 5 ptr)" by simp
      with fake show ?thesis by (simp add: eq)
    next
      case rot
      with t have "5 + (19 + 8 + BINLOG_FNAMELEN E) \<le> length ptr" by blast
      then have "19 + 8 + BINLOG_FNAMELEN E \<le> length (drop 5 ptr)" by simp
      from blr_rotate_event_some [OF this] rot show ?thesis by (simp add: eq)
    next
      case other
      then show ?thesis by (simp add: eq)
    qed
  qed
  have c: "count_event router hdr = router\<lparr>stats := stats (count_event router hdr)\<rparr>"
    by (simp add: count_event_def Let_def)
  have frame: "r' = router\<lparr>stats := stats r', binlog_name := binlog_name r',
                           binlog_position := binlog_position r', file_calls := file_calls r',
                           saved_master :=
                             (if ?fake
                              then (saved_master router)
                                     \<lparr>fde_len := event_size hdr,
                                      fde_event := Some (take (unat (event_size hdr)) (drop 5 ptr))\<rparr>
                              else saved_master router)\<rparr>
            \<and> slaves r' = slaves router
            \<and> (file_calls r' = file_calls router
                 \<or> (event_type hdr = ROTATE_EVENT
                      \<and> (\<exists>name pos. file_calls r' = file_calls router @ [FileRotate name pos])))"
    if r: "handle_message E router ptr = Some r'" for r'
  proof -
    consider (fake) "?fake" | (rot) "\<not> ?fake" "event_type hdr = ROTATE_EVENT"
      | (other) "\<not> ?fake" "event_type hdr \<noteq> ROTATE_EVENT" by blast
    then show ?thesis
    proof cases
      case fake
      with r eq have "r' = save_fde (count_event router hdr) hdr (drop 5 ptr)"
        by (simp split: if_splits)
      with fake show ?thesis by (simp add: save_fde_def count_event_def Let_def)
    next
      case rot
      with r eq have "blr_rotate_event E (count_event router hdr) (drop 5 ptr) hdr = Some r'"
        by (simp add: ne [symmetric])
      from blr_rotate_event_frame [OF this]
      have 1: "r' = (count_event router hdr)\<lparr>stats := stats r', binlog_name := binlog_name r',
                      binlog_position := binlog_position r', file_calls := file_calls r'\<rparr>"
        and 2: "file_calls r' = file_calls (count_event router hdr)
            \<or> (\<exists>name pos. file_calls r' = file_calls (count_event router hdr) @ [FileRotate name pos])"
        by blast+
      from 1 have 3: "r' = router\<lparr>stats := stats r', binlog_name := binlog_name r',
                           binlog_position := binlog_position r', file_calls := file_calls r'\<rparr>"
        by (subst (asm) c) simp
      have 4: "file_calls (count_event router hdr) = file_calls router"
        by (simp add: count_event_def Let_def)
      have 5: "slaves r' = slaves router" by (subst 3) simp
      have 6: "saved_master r' = saved_master router" by (subst 3) simp
      have 7: "r' = router\<lparr>stats := stats r', binlog_name := binlog_name r',
                           binlog_position := binlog_position r', file_calls := file_calls r',
                           saved_master := saved_master router\<rparr>"
        by (rule trans [OF 3]) simp
      from 2 4 rot have 8: "file_calls r' = file_calls router
                 \<or> (event_type hdr = ROTATE_EVENT
                      \<and> (\<exists>name pos. file_calls r' = file_calls router @ [FileRotate name pos]))"
        by simp
      show ?thesis unfolding if_not_P [OF rot(1)] by (intro conjI 7 5 8)
    next
      case other
      with r eq have r1: "r' = count_event router hdr" by simp
      have 7: "r' = router\<lparr>stats := stats r', binlog_name := binlog_name r',
                           binlog_position := binlog_position r', file_calls := file_calls r',
                           saved_master := saved_master router\<rparr>"
        by (simp add: r1 count_event_def Let_def)
      have 5: "slaves r' = slaves router" by (simp add: r1 count_event_def Let_def)
      have 8: "file_calls r' = file_calls router" by (simp add: r1 count_event_def Let_def)
      show ?thesis unfolding if_not_P [OF other(1)] by (intro conjI 7 5 disjI1 8)
    qed
  qed
  from eq some frame show ?thesis by blast
qed


lemma name_bin2: "map byte_of_char ''bin.000002'' = [0x62, 0x69, 0x6e, 0x2e, 0x30, 0x30, 0x30, 0x30, 0x30, 0x32]"
  by (simp add: byte_of_char_def)

lemma name_bin1: "map byte_of_char ''bin.000001'' = [0x62, 0x69, 0x6e, 0x2e, 0x30, 0x30, 0x30, 0x30, 0x30, 0x31]"
  by (simp add: byte_of_char_def)

theorem artificial_event_frame_witness:
  "blr_extract_header msg_art_rotate =
     Some \<lparr> payload_len = 44, hdr_seqno = 1, ok = 0, timestamp = 0, event_type = ROTATE_EVENT,
            hdr_serverid = 1, event_size = 43, next_pos = 0, flags = LOG_EVENT_ARTIFICIAL_F \<rparr>
   \<and> handle_message env16 router2 msg_art_rotate =
     Some (router2\<lparr>stats := \<lparr>n_binlogs = 1, n_binlog_errors = 0, n_fakeevents = 0,
                              n_rotates = 1, events = (\<lambda>t. 0)(4 := 1)\<rparr>,
                    binlog_name := map byte_of_char ''bin.000002'',
                    binlog_position := 4,
                    file_calls := [FileRotate (map byte_of_char ''bin.000002'') 4]\<rparr>)"
proof -
  let ?hdr = "\<lparr> payload_len = 44, hdr_seqno = 1, ok = 0, timestamp = 0, event_type = ROTATE_EVENT,
            hdr_serverid = 1, event_size = 43, next_pos = 0, flags = LOG_EVENT_ARTIFICIAL_F \<rparr>"
  have h: "blr_extract_header msg_art_rotate = Some ?hdr"
    by (simp add: header_msg_art_rotate ROTATE_EVENT_def LOG_EVENT_ARTIFICIAL_F_def)
  have a: "ok ?hdr = 0"
    "event_type ?hdr = HEARTBEAT_EVENT
       \<or> (event_type ?hdr = FORMAT_DESCRIPTION_EVENT \<and> next_pos ?hdr = 0)
       \<or> flags ?hdr = LOG_EVENT_ARTIFICIAL_F"
    by simp_all
  note t = artificial_event_frame [OF h a, of env16 router2]
  from t [THEN conjunct1]
  have e: "handle_message env16 router2 msg_art_rotate
             = blr_rotate_event env16 (count_event router2 ?hdr) (drop 5 msg_art_rotate) ?hdr"
    by (simp add: ROTATE_EVENT_def FORMAT_DESCRIPTION_EVENT_def)
  have "blr_rotate_event env16 (count_event router2 ?hdr) (drop 5 msg_art_rotate) ?hdr =
     Some (router2\<lparr>stats := \<lparr>n_binlogs = 1, n_binlog_errors = 0, n_fakeevents = 0,
                              n_rotates = 1, events = (\<lambda>t. 0)(4 := 1)\<rparr>,
                    binlog_name := map byte_of_char ''bin.000002'',
                    binlog_position := 4,
                    file_calls := [FileRotate (map byte_of_char ''bin.000002'') 4]\<rparr>)"
    by (simp add: blr_rotate_event_def rotate_pos_def msg_art_rotate_def extract_field_32
          memcpy_src_def env16_def strncmp_eq_def cstr_def byte_of_char_def
          router2_def router0_def stats0_def count_event_def Let_def ROTATE_EVENT_def
          blr_file_rotate_def)
  with e h show ?thesis by simp
qed


text \<open>An event of type 2 whose flags are \<open>0x21\<close>, the artificial flag and one more bit, is
  written to the file and sent to the slave at its position; a format description event
  with exactly the artificial flag and \<open>next_pos = 0\<close> replaces the saved format
  description event.\<close>

theorem artificial_event_counterexample:
  "blr_extract_header msg_art_query = Some hdr_art_query
   \<and> flags hdr_art_query AND LOG_EVENT_ARTIFICIAL_F = LOG_EVENT_ARTIFICIAL_F
   \<and> handle_message env16 router2 msg_art_query =
       Some (router2\<lparr>stats := \<lparr>n_binlogs = 1, n_binlog_errors = 0, n_fakeevents = 0,
                                n_rotates = 0, events = (\<lambda>t. 0)(2 := 1)\<rparr>,
                      slaves := [slave1\<lparr>seqno := 0,
                                   dcb := [map Some (event_packet 19 255 (drop 5 msg_art_query))],
                                   binlog_pos := 1019\<rparr>, slave2],
                      file_calls := [FileWrite hdr_art_query (drop 5 msg_art_query)]\<rparr>)
   \<and> blr_extract_header msg_fake_fde =
       Some \<lparr> payload_len = 20, hdr_seqno = 1, ok = 0, timestamp = 0,
              event_type = FORMAT_DESCRIPTION_EVENT, hdr_serverid = 1, event_size = 19,
              next_pos = 0, flags = LOG_EVENT_ARTIFICIAL_F \<rparr>
   \<and> handle_message env16 router2 msg_fake_fde =
       Some (router2\<lparr>stats := \<lparr>n_binlogs = 1, n_binlog_errors = 0, n_fakeevents = 1,
                                n_rotates = 0, events = (\<lambda>t. 0)(15 := 1)\<rparr>,
                      saved_master := saved0\<lparr>fde_len := 19,
                                             fde_event := Some (drop 5 msg_fake_fde)\<rparr>\<rparr>)"
proof -
  have hq: "blr_extract_header msg_art_query = Some hdr_art_query"
    by (simp add: header_msg_art_query hdr_art_query_def)
  have bit: "flags hdr_art_query AND LOG_EVENT_ARTIFICIAL_F = LOG_EVENT_ARTIFICIAL_F"
    by (simp add: hdr_art_query_def LOG_EVENT_ARTIFICIAL_F_def)
  have rd: "unat (event_size hdr_art_query) \<le> length (drop 5 msg_art_query)"
    by (simp add: hdr_art_query_def msg_art_query_def)
  have sz: "unat (event_size hdr_art_query) + 5 < 2 ^ 32"
    by (simp add: hdr_art_query_def)
  have d1: "deliver env16 hdr_art_query (drop 5 msg_art_query) slave1
              = slave1\<lparr>seqno := 0,
                       dcb := [map Some (event_packet 19 255 (drop 5 msg_art_query))],
                       binlog_pos := 1019\<rparr>"
    by (simp add: deliver_def hdr_art_query_def slave1_def Let_def ROTATE_EVENT_def)
  have d2: "deliver env16 hdr_art_query (drop 5 msg_art_query) slave2 = slave2"
    by (simp add: deliver_def hdr_art_query_def slave2_def)
  have fq: "ok hdr_art_query = 0" "event_type hdr_art_query = 2"
    "flags hdr_art_query = 0x21" "next_pos hdr_art_query = 1019"
    by (simp_all add: hdr_art_query_def)
  have cq: "count_event router2 hdr_art_query
              = router2\<lparr>stats := \<lparr>n_binlogs = 1, n_binlog_errors = 0, n_fakeevents = 0,
                                n_rotates = 0, events = (\<lambda>t. 0)(2 := 1)\<rparr>\<rparr>"
    by (simp add: count_event_def fq Let_def router2_def router0_def stats0_def)
  have sq: "slaves router2 = [slave1, slave2]" by (simp add: router2_def)
  have fc: "file_calls router2 = []" by (simp add: router2_def router0_def)
  have "handle_message env16 router2 msg_art_query =
          blr_distribute_binlog_record env16
            (blr_write_binlog_record (count_event router2 hdr_art_query) hdr_art_query
               (drop 5 msg_art_query))
            hdr_art_query (drop 5 msg_art_query)"
    unfolding handle_message_def hq
    by (simp add: Let_def fq count_event_def FORMAT_DESCRIPTION_EVENT_def HEARTBEAT_EVENT_def
          ROTATE_EVENT_def LOG_EVENT_ARTIFICIAL_F_def)
  also have "\<dots> = Some (router2\<lparr>stats := \<lparr>n_binlogs = 1, n_binlog_errors = 0, n_fakeevents = 0,
                                n_rotates = 0, events = (\<lambda>t. 0)(2 := 1)\<rparr>,
                      slaves := [slave1\<lparr>seqno := 0,
                                   dcb := [map Some (event_packet 19 255 (drop 5 msg_art_query))],
                                   binlog_pos := 1019\<rparr>, slave2],
                      file_calls := [FileWrite hdr_art_query (drop 5 msg_art_query)]\<rparr>)"
    by (simp add: blr_distribute_deliver [OF rd sz] cq blr_write_binlog_record_def sq fc d1 d2)
  finally have q: "handle_message env16 router2 msg_art_query =
       Some (router2\<lparr>stats := \<lparr>n_binlogs = 1, n_binlog_errors = 0, n_fakeevents = 0,
                                n_rotates = 0, events = (\<lambda>t. 0)(2 := 1)\<rparr>,
                      slaves := [slave1\<lparr>seqno := 0,
                                   dcb := [map Some (event_packet 19 255 (drop 5 msg_art_query))],
                                   binlog_pos := 1019\<rparr>, slave2],
                      file_calls := [FileWrite hdr_art_query (drop 5 msg_art_query)]\<rparr>)" .
  have hf: "blr_extract_header msg_fake_fde =
       Some \<lparr> payload_len = 20, hdr_seqno = 1, ok = 0, timestamp = 0,
              event_type = FORMAT_DESCRIPTION_EVENT, hdr_serverid = 1, event_size = 19,
              next_pos = 0, flags = LOG_EVENT_ARTIFICIAL_F \<rparr>"
    by (simp add: header_msg_fake_fde FORMAT_DESCRIPTION_EVENT_def LOG_EVENT_ARTIFICIAL_F_def)
  have f: "handle_message env16 router2 msg_fake_fde =
       Some (router2\<lparr>stats := \<lparr>n_binlogs = 1, n_binlog_errors = 0, n_fakeevents = 1,
                                n_rotates = 0, events = (\<lambda>t. 0)(15 := 1)\<rparr>,
                      saved_master := saved0\<lparr>fde_len := 19,
                                             fde_event := Some (drop 5 msg_fake_fde)\<rparr>\<rparr>)"
    unfolding handle_message_def hf
    by (simp add: Let_def memcpy_src_def msg_fake_fde_def FORMAT_DESCRIPTION_EVENT_def
          router2_def router0_def stats0_def)
  from hq bit q hf f show ?thesis by blast
qed


section \<open>The master state machine\<close>


lemma handle_loop_wait:
  "\<lbrakk>pkt \<noteq> []; 24 < gwbuf_length pkt; message_len pkt = Some len;
    GWBUF_LENGTH pkt < len; gwbuf_length pkt < len\<rbrakk>
   \<Longrightarrow> handle_loop E router pkt = Some (router, pkt, [])"
  by (subst handle_loop.simps) (simp add: Let_def)


lemma handle_loop_copy:
  "\<lbrakk>pkt \<noteq> []; 24 < gwbuf_length pkt; message_len pkt = Some len;
    GWBUF_LENGTH pkt < len; len \<le> gwbuf_length pkt; tl pkt = nxt # rest;
    memcpy_src nxt (len - GWBUF_LENGTH pkt) = Some tb;
    handle_message E router (hd pkt @ tb) = Some r1;
    gwbuf_consume pkt (GWBUF_LENGTH pkt) = Some pkt1;
    gwbuf_consume pkt1 (len - GWBUF_LENGTH pkt) = Some pkt2\<rbrakk>
   \<Longrightarrow> handle_loop E router pkt =
         map_option (\<lambda>(r, res, tr). (r, res, (hd pkt @ tb) # tr)) (handle_loop E r1 pkt2)"
  by (subst handle_loop.simps) (auto simp: Let_def split: option.splits)



subsection \<open>The handshake as the specification lists it\<close>


text \<open>A COM\_QUERY packet: 24-bit length of the text plus one, sequence id 0, the command
  byte 0x03 and the text.\<close>

definition query_packet :: "string \<Rightarrow> obuf" where
  "query_packet q =
     map Some (encode_value (of_nat (length q + 1)) 24 @ [0, 0x03] @ map byte_of_char q)"








text \<open>The loop of \<^verbatim>\<open>blr_master_response\<close> after its first step, as the steps it takes:
  each buffer of the queue, in order, is taken off the queue and handed to the step as
  it is; when the queue is empty the gate is released.\<close>

fun drain_queue ::
  "('f, 'e) blr_env_scheme \<Rightarrow> ('f, 'r) router_instance_scheme \<Rightarrow> gwbuf
     \<Rightarrow> ('f, 'r) router_instance_scheme option" where
  "drain_queue E router [] = Some (router\<lparr>active_logs := 0\<rparr>)"
| "drain_queue E router (seg # rest) =
     (case master_step E (router\<lparr>queue := rest\<rparr>) [seg] of
        None \<Rightarrow> None
      | Some router' \<Rightarrow> drain_queue E router' rest)"

text \<open>A response of the master without the error marker, and one with it.\<close>

definition ok_packet :: bytes where
  "ok_packet = [7, 0, 0, 1, 0, 0, 0, 2, 0, 0, 0]"

definition err_packet :: bytes where
  "err_packet = [3, 0, 0, 1, 0xff, 0x15, 0x04]"

lemma encode_value_length_16 [simp]: "length (encode_value v 16) = 2"
  by (simp add: encode_value_16)

lemma blr_make_query_eq: "blr_make_query q = Some (query_packet q)"
proof -
  let ?l = "encode_value (of_nat (length q + 1)) 24"
  have s0: "store (gwbuf_alloc (length q + 5)) 0 ?l
              = Some (map Some ?l @ replicate (length q + 2) None)"
    by (simp add: store_alloc)
  have s3: "store (map Some ?l @ replicate (length q + 2) None) 3 [0]
              = Some (map Some (?l @ [0]) @ replicate (length q + 1) None)"
    by (subst store_fresh) simp_all
  have s4: "store (map Some (?l @ [0]) @ replicate (length q + 1) None) 4 [COM_QUERY]
              = Some (map Some (?l @ [0, COM_QUERY]) @ replicate (length q) None)"
    by (subst store_fresh) simp_all
  have s5: "store (map Some (?l @ [0, COM_QUERY]) @ replicate (length q) None) 5 (map byte_of_char q)
              = Some (query_packet q)"
    by (subst store_fresh) (simp_all add: query_packet_def COM_QUERY_def)
  show ?thesis
    unfolding blr_make_query_def Let_def
    by (simp only: s0 s3 s4 s5 Option.bind.simps)
qed






lemma master_loop_drain:
  "master_loop E router buf =
     (case master_step E router buf of
        None \<Rightarrow> None
      | Some router' \<Rightarrow> drain_queue E router' (queue router'))"
proof (induction "length (queue router)" arbitrary: router buf rule: less_induct)
  case less
  show ?case
  proof (cases "master_step E router buf")
    case None
    then show ?thesis by (subst master_loop.simps) simp
  next
    case (Some r1)
    show ?thesis
    proof (cases "queue r1")
      case Nil
      with Some show ?thesis by (subst master_loop.simps) simp
    next
      case (Cons seg rest)
      have q: "queue r1 = queue router" using Some by (rule master_step_queue)
      have "queue router = seg # rest" using q Cons by simp
      then have "length (queue (r1\<lparr>queue := rest\<rparr>)) < length (queue router)"
        by simp
      from less [OF this, of "[seg]"]
      have ih: "master_loop E (r1\<lparr>queue := rest\<rparr>) [seg] =
                  (case master_step E (r1\<lparr>queue := rest\<rparr>) [seg] of
                     None \<Rightarrow> None
                   | Some router' \<Rightarrow> drain_queue E router' (queue router'))" .
      have "master_loop E router buf = master_loop E (r1\<lparr>queue := rest\<rparr>) [seg]"
        using Some Cons by (subst master_loop.simps) simp
      also have "\<dots> = drain_queue E r1 (seg # rest)"
      proof (cases "master_step E (r1\<lparr>queue := rest\<rparr>) [seg]")
        case None
        then show ?thesis by (simp add: ih)
      next
        case s2: (Some r2)
        have "queue r2 = rest" using master_step_queue [OF s2] by simp
        with s2 show ?thesis by (simp add: ih)
      qed
      finally show ?thesis using Some Cons by simp
    qed
  qed
qed









lemma MYSQL_RESPONSE_ERR_ok: "MYSQL_RESPONSE_ERR [ok_packet] = Some False"
  by (simp add: MYSQL_RESPONSE_ERR_def ok_packet_def)

lemma MYSQL_RESPONSE_ERR_err: "MYSQL_RESPONSE_ERR [err_packet] = Some True"
  by (simp add: MYSQL_RESPONSE_ERR_def err_packet_def)

text \<open>
  C6. A response delivered while the gate is free is dropped when the state is outside
  \<open>0 .. BLRM_MAXSTATE\<close> or when the response carries the error marker:
  \<^verbatim>\<open>blr_master_response\<close> returns, the gate is released (\<open>active_logs\<close> is 0), and the
  router is the router it was called with: same state, nothing written to the master,
  the buffer kept nowhere, nothing else changed.
\<close>

theorem blr_master_response_error_drop:
  assumes "active_logs router = 0"
    and "master_state router < 0 \<or> BLRM_MAXSTATE < master_state router
           \<or> MYSQL_RESPONSE_ERR buf = Some True"
  shows "\<exists>r'. blr_master_response E router buf = Some r'
            \<and> r' = router\<lparr>active_logs := 0\<rparr> \<and> r' = router
            \<and> active_logs r' = 0 \<and> master_state r' = master_state router
            \<and> master r' = master router \<and> queue r' = queue router
            \<and> residual r' = residual router \<and> saved_master r' = saved_master router"
proof -
  have "blr_master_response E router buf = Some (router\<lparr>active_logs := 0\<rparr>)"
    using assms by (auto simp: blr_master_response_def Let_def)
  moreover have "router\<lparr>active_logs := 0\<rparr> = router"
    using assms(1) by simp
  ultimately show ?thesis using assms(1) by simp
qed

theorem blr_master_response_error_drop_witness:
  "MYSQL_RESPONSE_ERR [err_packet] = Some True
   \<and> active_logs (router0\<lparr>master_state := BLRM_CHKSUM1\<rparr>) = 0
   \<and> blr_master_response env16 (router0\<lparr>master_state := BLRM_CHKSUM1\<rparr>) [err_packet]
       = Some (router0\<lparr>master_state := BLRM_CHKSUM1\<rparr>)
   \<and> blr_master_response env16 (router0\<lparr>master_state := 13\<rparr>) [ok_packet]
       = Some (router0\<lparr>master_state := 13\<rparr>)"
proof -
  have a: "active_logs (router0\<lparr>master_state := BLRM_CHKSUM1\<rparr>) = 0"
    "active_logs (router0\<lparr>master_state := 13\<rparr>) = 0"
    by (simp_all add: router0_def)
  have e: "master_state (router0\<lparr>master_state := BLRM_CHKSUM1\<rparr>) < 0
           \<or> BLRM_MAXSTATE < master_state (router0\<lparr>master_state := BLRM_CHKSUM1\<rparr>)
           \<or> MYSQL_RESPONSE_ERR [err_packet] = Some True"
    by (simp add: MYSQL_RESPONSE_ERR_err)
  have v: "master_state (router0\<lparr>master_state := 13\<rparr>) < 0
           \<or> BLRM_MAXSTATE < master_state (router0\<lparr>master_state := 13\<rparr>)
           \<or> MYSQL_RESPONSE_ERR [ok_packet] = Some True"
    by (simp add: BLRM_MAXSTATE_def)
  from blr_master_response_error_drop [OF a(1) e, of env16]
  have 1: "blr_master_response env16 (router0\<lparr>master_state := BLRM_CHKSUM1\<rparr>) [err_packet]
       = Some (router0\<lparr>master_state := BLRM_CHKSUM1\<rparr>)" by (elim exE conjE) simp
  from blr_master_response_error_drop [OF a(2) v, of env16]
  have 2: "blr_master_response env16 (router0\<lparr>master_state := 13\<rparr>) [ok_packet]
       = Some (router0\<lparr>master_state := 13\<rparr>)" by (elim exE conjE) simp
  show ?thesis by (intro conjI MYSQL_RESPONSE_ERR_err a(1) 1 2)
qed

text \<open>
  C10. The loop of \<^verbatim>\<open>blr_master_response\<close> is a step on the delivered buffer followed
  by a step on each buffer of the queue, in order, each handed to the step as it is
  taken off the queue; the state and the error marker are checked once, on the delivered
  buffer, before the loop. So with the gate free, the state in range and no error marker
  on the delivered buffer, \<^verbatim>\<open>blr_master_response\<close> is the step on the delivered buffer
  followed by the steps on the queued buffers, whatever these carry.
\<close>

theorem blr_master_response_dequeued_unchecked:
  "master_loop E router buf =
     (case master_step E router buf of
        None \<Rightarrow> None
      | Some router' \<Rightarrow> drain_queue E router' (queue router))
   \<and> (active_logs router = 0 \<and> 0 \<le> master_state router
        \<and> master_state router \<le> BLRM_MAXSTATE \<and> MYSQL_RESPONSE_ERR buf = Some False
      \<longrightarrow> blr_master_response E router buf =
            (case master_step E (router\<lparr>active_logs := 1\<rparr>) buf of
               None \<Rightarrow> None
             | Some router' \<Rightarrow> drain_queue E router' (queue router)))"
proof -
  have 1: "master_loop E r b =
     (case master_step E r b of
        None \<Rightarrow> None
      | Some router' \<Rightarrow> drain_queue E router' (queue r))" for r b
  proof (cases "master_step E r b")
    case None
    then show ?thesis by (simp add: master_loop_drain)
  next
    case (Some r1)
    then have "queue r1 = queue r" by (rule master_step_queue)
    with Some show ?thesis by (simp add: master_loop_drain)
  qed
  have 2: "blr_master_response E router buf = master_loop E (router\<lparr>active_logs := 1\<rparr>) buf"
    if "active_logs router = 0 \<and> 0 \<le> master_state router
        \<and> master_state router \<le> BLRM_MAXSTATE \<and> MYSQL_RESPONSE_ERR buf = Some False"
    using that by (simp add: blr_master_response_def Let_def)
  show ?thesis
  proof (intro conjI impI)
    show "master_loop E router buf =
     (case master_step E router buf of
        None \<Rightarrow> None
      | Some router' \<Rightarrow> drain_queue E router' (queue router))" by (rule 1)
  next
    assume a: "active_logs router = 0 \<and> 0 \<le> master_state router
        \<and> master_state router \<le> BLRM_MAXSTATE \<and> MYSQL_RESPONSE_ERR buf = Some False"
    show "blr_master_response E router buf =
            (case master_step E (router\<lparr>active_logs := 1\<rparr>) buf of
               None \<Rightarrow> None
             | Some router' \<Rightarrow> drain_queue E router' (queue router))"
      using 1 [of "router\<lparr>active_logs := 1\<rparr>" buf]
      by (simp add: 2 [OF a] split: option.splits)
  qed
qed


theorem blr_master_response_dequeued_unchecked_witness:
  "MYSQL_RESPONSE_ERR [err_packet] = Some True
   \<and> blr_master_response env16
         (router0\<lparr>master_state := BLRM_CHKSUM1, queue := [err_packet]\<rparr>) [ok_packet]
       = Some (router0\<lparr>master_state := BLRM_GTIDMODE,
                       saved_master := saved0\<lparr>chksum1 := [ok_packet], chksum2 := [err_packet]\<rparr>,
                       master := [query_packet ''SELECT @master_binlog_checksum'',
                                  query_packet ''SELECT @@GLOBAL.GTID_MODE'']\<rparr>)"
proof -
  let ?r = "router0\<lparr>master_state := BLRM_CHKSUM1, queue := [err_packet]\<rparr>"
  let ?r1 = "router0\<lparr>master_state := BLRM_CHKSUM2, queue := [err_packet], active_logs := 1,
                      saved_master := saved0\<lparr>chksum1 := [ok_packet]\<rparr>,
                      master := [query_packet ''SELECT @master_binlog_checksum'']\<rparr>"
  let ?r2 = "router0\<lparr>master_state := BLRM_GTIDMODE, queue := [], active_logs := 1,
                      saved_master := saved0\<lparr>chksum1 := [ok_packet], chksum2 := [err_packet]\<rparr>,
                      master := [query_packet ''SELECT @master_binlog_checksum'',
                                 query_packet ''SELECT @@GLOBAL.GTID_MODE'']\<rparr>"
  have h: "active_logs ?r = 0 \<and> 0 \<le> master_state ?r
        \<and> master_state ?r \<le> BLRM_MAXSTATE \<and> MYSQL_RESPONSE_ERR [ok_packet] = Some False"
    by (simp add: router0_def BLRM_defs MYSQL_RESPONSE_ERR_ok)
  have q: "queue ?r = [err_packet]" by simp
  have s1: "master_step env16 (?r\<lparr>active_logs := 1\<rparr>) [ok_packet] = Some ?r1"
    by (simp add: master_step_def blr_make_query_eq BLRM_defs Let_def router0_def)
  have s2: "master_step env16 (?r1\<lparr>queue := []\<rparr>) [err_packet] = Some ?r2"
    by (simp add: master_step_def blr_make_query_eq BLRM_defs Let_def router0_def)
  from blr_master_response_dequeued_unchecked [of env16 ?r "[ok_packet]"] h
  have "blr_master_response env16 ?r [ok_packet] =
            (case master_step env16 (?r\<lparr>active_logs := 1\<rparr>) [ok_packet] of
               None \<Rightarrow> None
             | Some router' \<Rightarrow> drain_queue env16 router' (queue ?r))"
    by blast
  then have "blr_master_response env16 ?r [ok_packet] = Some (?r2\<lparr>active_logs := 0\<rparr>)"
    by (simp only: s1 q option.case drain_queue.simps s2)
  moreover have "?r2\<lparr>active_logs := 0\<rparr>
       = router0\<lparr>master_state := BLRM_GTIDMODE,
                       saved_master := saved0\<lparr>chksum1 := [ok_packet], chksum2 := [err_packet]\<rparr>,
                       master := [query_packet ''SELECT @master_binlog_checksum'',
                                  query_packet ''SELECT @@GLOBAL.GTID_MODE'']\<rparr>"
    by (simp add: router0_def)
  ultimately show ?thesis using MYSQL_RESPONSE_ERR_err by simp
qed






end
